theory Spec2Isabelle
  imports Complex_Main
begin

section \<open>Strings and truthiness\<close>

text \<open>
  JavaScript strings are modelled as \<^typ>\<open>string\<close>, a list of characters: one
  \<^typ>\<open>char\<close> stands for one code unit, which is what \<open>length\<close>, \<open>substring\<close> and a
  regular expression without the \<open>u\<close> flag count (code units beyond 255 are not
  represented). A value that may be \<open>undefined\<close> is a \<^typ>\<open>string option\<close>;
  \<open>undefined\<close> and the empty string are the falsy ones, which is all that the operator
  \<open>||\<close> of the source looks at: \<open>orElse a d\<close> is \<open>a || d\<close> for a string \<open>d\<close> that is
  not empty, \<open>orOpt a b\<close> is \<open>a || b\<close>.
\<close>

definition startsWith :: "string \<Rightarrow> string \<Rightarrow> bool" where
  "startsWith s p = (take (length p) s = p)"

fun str_includes :: "string \<Rightarrow> string \<Rightarrow> bool" where
  "str_includes [] p = (p = [])"
| "str_includes (c # cs) p = (startsWith (c # cs) p \<or> str_includes cs p)"

definition substring0 :: "nat \<Rightarrow> string \<Rightarrow> string" where
  "substring0 n s = take n s"

fun truthy :: "string option \<Rightarrow> bool" where
  "truthy None = False"
| "truthy (Some s) = (s \<noteq> [])"

definition orElse :: "string option \<Rightarrow> string \<Rightarrow> string" where
  "orElse a d = (case a of None \<Rightarrow> d | Some s \<Rightarrow> if s = [] then d else s)"

definition orOpt :: "string option \<Rightarrow> string option \<Rightarrow> string option" where
  "orOpt a b = (if truthy a then a else b)"

section \<open>Video-ID extraction (server.js, extractVideoId)\<close>

text \<open>
  The character class \<open>[a-zA-Z0-9_-]\<close>, by character code: \<open>a\<close>--\<open>z\<close> are
  97--122, \<open>A\<close>--\<open>Z\<close> are 65--90, \<open>0\<close>--\<open>9\<close> are 48--57.
\<close>

definition isIdChar :: "char \<Rightarrow> bool" where
  "isIdChar c =
     (let n = (of_char c :: nat)
      in (97 \<le> n \<and> n \<le> 122) \<or> (65 \<le> n \<and> n \<le> 90) \<or> (48 \<le> n \<and> n \<le> 57)
         \<or> c = CHR ''_'' \<or> c = CHR ''-'')"

text \<open>The four literal alternatives of the first pattern, in the order of the source.\<close>

definition markers :: "string list" where
  "markers = [''youtube.com/watch?v='', ''youtu.be/'', ''youtube.com/embed/'', ''youtube.com/v/'']"

text \<open>
  An attempt of the first pattern at the current position: the alternatives are tried in
  order, each followed by exactly eleven class characters, which are the capture group.
\<close>

fun matchHere :: "string list \<Rightarrow> string \<Rightarrow> string option" where
  "matchHere [] s = None"
| "matchHere (m # ms) s =
     (let cand = take 11 (drop (length m) s)
      in if startsWith s m \<and> length cand = 11 \<and> list_all isIdChar cand then Some cand
         else matchHere ms s)"

text \<open>
  The first pattern carries no anchor: \<open>String.prototype.match\<close> tries it at position 0,
  then 1, and so on, and the leftmost position that matches wins.
\<close>

fun urlPattern :: "string \<Rightarrow> string option" where
  "urlPattern [] = matchHere markers []"
| "urlPattern (c # cs) =
     (case matchHere markers (c # cs) of
        Some v \<Rightarrow> Some v
      | None \<Rightarrow> urlPattern cs)"

text \<open>The second pattern, \<open>^([a-zA-Z0-9_-]{11})$\<close>, is anchored at both ends.\<close>

definition idPattern :: "string \<Rightarrow> string option" where
  "idPattern s = (if length s = 11 \<and> list_all isIdChar s then Some s else None)"

fun firstMatch :: "(string \<Rightarrow> string option) list \<Rightarrow> string \<Rightarrow> string option" where
  "firstMatch [] url = None"
| "firstMatch (p # ps) url =
     (case p url of Some v \<Rightarrow> Some v | None \<Rightarrow> firstMatch ps url)"

definition extractVideoId :: "string \<Rightarrow> string option" where
  "extractVideoId url = firstMatch [urlPattern, idPattern] url"

section \<open>Numbers as text (Number.prototype.toString)\<close>

definition digitChar :: "nat \<Rightarrow> char" where
  "digitChar d = ''0123456789abcdefghijklmnopqrstuvwxyz'' ! (d mod 36)"

function natToString :: "nat \<Rightarrow> nat \<Rightarrow> string" where
  "natToString b n =
     (if b < 2 \<or> n < b then [digitChar n]
      else natToString b (n div b) @ [digitChar (n mod b)])"
  by pat_completeness auto
termination
  by (relation "measure snd") auto

declare natToString.simps [simp del]

definition toString :: "nat \<Rightarrow> int \<Rightarrow> string" where
  "toString radix i = (if i < 0 then CHR ''-'' # natToString radix (nat (- i))
                       else natToString radix (nat i))"

section \<open>The temp directory and the periodic sweep (cleanupOldFiles)\<close>

text \<open>
  The temp directory maps an entry name to what \<open>fs.stat\<close> and \<open>fs.unlink\<close> see of it:
  its modification time in milliseconds (\<open>stats.mtimeMs\<close>, which may carry a fraction)
  and whether \<open>unlink\<close> can remove it (a regular file of the process; not a
  subdirectory, not a protected entry). \<open>path.join(TEMP_DIR, file)\<close> addresses the entry
  \<open>file\<close> of this directory.
\<close>

record node =
  mtimeMs :: rat
  removable :: bool

type_synonym tempdir = "string \<rightharpoonup> node"

definition MAX_FILE_AGE_MS :: rat where
  "MAX_FILE_AGE_MS = 30 * 60 * 1000"

text \<open>\<open>fs.stat\<close> and \<open>fs.unlink\<close>: \<open>Inl\<close> is the exception they throw.\<close>

definition stat :: "tempdir \<Rightarrow> string \<Rightarrow> string + node" where
  "stat d f = (case d f of None \<Rightarrow> Inl ''ENOENT: no such file or directory'' | Some n \<Rightarrow> Inr n)"

definition unlink :: "tempdir \<Rightarrow> string \<Rightarrow> string + tempdir" where
  "unlink d f =
     (case d f of
        None \<Rightarrow> Inl ''ENOENT: no such file or directory''
      | Some n \<Rightarrow> if removable n then Inr (d(f := None))
                  else Inl ''EPERM: operation not permitted'')"

text \<open>
  server.js, and the fourth server, whose \<open>cleanupOldFiles\<close> is the same text: the loop
  has no handler of its own, so the first exception leaves it; the directory is
  returned as it is at that moment, with the exception.
\<close>

fun sweepLoop :: "rat \<Rightarrow> string list \<Rightarrow> tempdir \<Rightarrow> tempdir \<times> string option" where
  "sweepLoop now [] d = (d, None)"
| "sweepLoop now (file # files) d =
     (case stat d file of
        Inl e \<Rightarrow> (d, Some e)
      | Inr stats \<Rightarrow>
          if now - mtimeMs stats > MAX_FILE_AGE_MS then
            (case unlink d file of
               Inl e \<Rightarrow> (d, Some e)
             | Inr d' \<Rightarrow> sweepLoop now files d')
          else sweepLoop now files d)"

text \<open>
  \<open>cleanupOldFiles\<close> of server.js. \<open>readdir\<close> is the outcome of \<open>fs.readdir(TEMP_DIR)\<close>;
  the second component of the result is what \<open>console.error\<close> prints.
\<close>

definition cleanupOldFiles ::
  "rat \<Rightarrow> string + string list \<Rightarrow> tempdir \<Rightarrow> tempdir \<times> string list" where
  "cleanupOldFiles now readdir d =
     (case readdir of
        Inl e \<Rightarrow> (d, [''Cleanup error: '' @ e])
      | Inr files \<Rightarrow>
          (case sweepLoop now files d of
             (d', None) \<Rightarrow> (d', [])
           | (d', Some e) \<Rightarrow> (d', [''Cleanup error: '' @ e])))"

text \<open>
  The two servers of part_001 share one \<open>cleanupOldFiles\<close>: every iteration has its own
  \<open>try\<close> whose handler is \<open>continue\<close>. The second component collects the lines of
  \<open>console.log\<close>.
\<close>

fun sweepLoop_p1 :: "rat \<Rightarrow> string list \<Rightarrow> tempdir \<Rightarrow> tempdir \<times> string list" where
  "sweepLoop_p1 now [] d = (d, [])"
| "sweepLoop_p1 now (file # files) d =
     (case stat d file of
        Inl e \<Rightarrow> sweepLoop_p1 now files d
      | Inr stats \<Rightarrow>
          if now - mtimeMs stats > MAX_FILE_AGE_MS then
            (case unlink d file of
               Inl e \<Rightarrow> sweepLoop_p1 now files d
             | Inr d' \<Rightarrow>
                 (case sweepLoop_p1 now files d' of
                    (d'', out) \<Rightarrow> (d'', (''Cleaned up old file: '' @ file) # out)))
          else sweepLoop_p1 now files d)"

definition cleanupOldFiles_p1 ::
  "rat \<Rightarrow> string + string list \<Rightarrow> tempdir \<Rightarrow> tempdir \<times> string list" where
  "cleanupOldFiles_p1 now readdir d =
     (case readdir of
        Inl e \<Rightarrow> (d, [''Cleanup error: '' @ e])
      | Inr files \<Rightarrow> sweepLoop_p1 now files d)"

section \<open>Sessions (server.js)\<close>

text \<open>
  \<open>sessions\<close> is a JavaScript \<open>Map\<close> from session id to \<open>{ createdAt }\<close>: an association
  list in insertion order with distinct keys. \<open>set\<close> on a present key replaces the value
  in place, on an absent key appends.
\<close>

type_synonym sessions = "(string \<times> int) list"

definition map_has :: "sessions \<Rightarrow> string \<Rightarrow> bool" where
  "map_has m k = (k \<in> fst ` set m)"

fun map_set :: "string \<Rightarrow> int \<Rightarrow> sessions \<Rightarrow> sessions" where
  "map_set k v [] = [(k, v)]"
| "map_set k v ((k', v') # m) =
     (if k' = k then (k, v) # m else (k', v') # map_set k v m)"

text \<open>
  Time: \<open>clock i\<close> is what the \<open>i\<close>-th call of \<open>Date.now()\<close> within one run of a handler
  returns.
\<close>

definition generateSessionId :: "string \<Rightarrow> int \<Rightarrow> string" where
  "generateSessionId rnd now = rnd @ toString 36 now"

record authInfo =
  header_session :: "string option"
  query_session :: "string option"

definition sessionIdOf :: "authInfo \<Rightarrow> string option" where
  "sessionIdOf req = orOpt (header_session req) (query_session req)"

definition isAuthenticated :: "authInfo \<Rightarrow> sessions \<Rightarrow> bool" where
  "isAuthenticated req m =
     (case sessionIdOf req of None \<Rightarrow> False | Some sessionId \<Rightarrow> map_has m sessionId)"

definition SESSION_MAX_AGE_MS :: int where
  "SESSION_MAX_AGE_MS = 24 * 60 * 60 * 1000"

text \<open>
  The clean-up loop of the authentication handler: it visits the entries in order, reads
  the clock once per entry and deletes the entry it is at when that is too old.
\<close>

fun evictOld :: "(nat \<Rightarrow> int) \<Rightarrow> nat \<Rightarrow> sessions \<Rightarrow> sessions" where
  "evictOld clock i [] = []"
| "evictOld clock i ((sid, createdAt) # rest) =
     (if clock i - createdAt > SESSION_MAX_AGE_MS then evictOld clock (Suc i) rest
      else (sid, createdAt) # evictOld clock (Suc i) rest)"

definition AUTH_PASSWORD :: "string option \<Rightarrow> string" where
  "AUTH_PASSWORD env = orElse env ''mihir123''"

datatype jv = JStr string | JBool bool | JNum int

type_synonym body = "(string \<times> jv) list"

text \<open>
  \<open>POST /api/auth\<close>. \<open>env\<close> is \<open>process.env.AUTH_PASSWORD\<close> and \<open>rnd\<close> is the text
  \<open>Math.random().toString(36).substring(2)\<close>; the clock is read for the session id,
  for \<open>createdAt\<close>, and then once per entry of the loop. The result is the response
  (status and JSON body) and the registry afterwards.
\<close>

definition auth ::
  "string option \<Rightarrow> (nat \<Rightarrow> int) \<Rightarrow> string \<Rightarrow> string option \<Rightarrow> sessions
     \<Rightarrow> (nat \<times> body) \<times> sessions" where
  "auth env clock rnd password m =
     (if password = Some (AUTH_PASSWORD env) then
        (let sessionId = generateSessionId rnd (clock 0);
             m1 = map_set sessionId (clock 1) m;
             m2 = evictOld clock 2 m1
         in ((200, [(''success'', JBool True), (''sessionId'', JStr sessionId)]), m2))
      else ((401, [(''error'', JStr ''Invalid password'')]), m))"

section \<open>What a handler does: events\<close>

text \<open>
  A run of a handler is the list of its effects on the outside, in order: the calls to
  the resolver (\<open>ApiRequest\<close> with the path, \<open>CobaltRequest\<close> with the YouTube URL), the
  runs of yt-dlp (\<open>Exec\<close> with the arguments) and of ffmpeg, the requests of the
  downloader (\<open>Get\<close>), the operations on the temp file (\<open>OpenWrite\<close> is
  \<open>createWriteStream\<close>, \<open>Stat\<close> is \<open>fs.stat\<close>; \<open>Unlink p\<close> is the attempt to delete
  \<open>p\<close>, whatever comes of it), and the response: \<open>Json\<close> is a status with a JSON body,
  \<open>SendFile p name\<close> is the start of the transfer of file \<open>p\<close> as an attachment called
  \<open>name\<close>. Console output is not part of it.
\<close>

datatype event =
    ApiRequest string
  | CobaltRequest string
  | Exec "string list"
  | Ffmpeg string string
  | OpenWrite string
  | Get string
  | Stat string
  | Unlink string
  | Json nat body
  | SendFile string string

text \<open>How a promise ends: resolved, rejected with an error message, or never, because
  the process died of an uncaught exception.\<close>

datatype settled = Resolved | Rejected string | Crashed string

section \<open>Library calls\<close>

text \<open>
  Functions of packages and of the platform, whose code is not part of the repository,
  are parameters of the handlers: \<open>validator.isURL(url, { protocols: ['http', 'https'],
  require_protocol: true })\<close>, \<open>new URL(url).hostname\<close> and \<open>new URL(url).protocol\<close>
  (\<open>None\<close> when the constructor throws) and \<open>sanitize\<close> of sanitize-filename.
\<close>

record lib =
  isURL :: "string \<Rightarrow> bool"
  hostname :: "string \<Rightarrow> string option"
  protocol :: "string \<Rightarrow> string option"
  sanitize :: "string \<Rightarrow> string"

section \<open>The downloader (downloadFile)\<close>

text \<open>
  \<open>net url\<close> is what the server at \<open>url\<close> answers to a GET: a network error, or a
  response with its status code and \<open>Location\<close> header; for a response whose body is
  written to disk, the third field is the error of the write stream, when there is one.
\<close>

datatype reply = NetError string | Reply nat "string option" "string option"

text \<open>
  All downloaders pick the module by \<open>url.startsWith('https')\<close> and call its \<open>get\<close>.
  The call throws a \<open>TypeError\<close>, and makes no request, when the text is not an absolute
  URL (\<open>new URL\<close> throws) or when its protocol is not the one of the module; \<open>net\<close> is
  asked only about a URL that \<open>get\<close> accepts. \<open>getThrows\<close> is the message of that error.
\<close>

definition getThrows :: "lib \<Rightarrow> string \<Rightarrow> string option" where
  "getThrows L u =
     (let expected = (if startsWith u ''https'' then ''https:'' else ''http:'')
      in case protocol L u of
           None \<Rightarrow> Some ''Invalid URL''
         | Some p \<Rightarrow>
             if p = expected then None
             else Some (''Protocol '' @ [CHR 0x22] @ p @ [CHR 0x22]
                        @ '' not supported. Expected '' @ [CHR 0x22] @ expected @ [CHR 0x22]))"

text \<open>
  server.js: \<open>makeRequest\<close> calls itself on every redirect, with no counter. The
  function is partial: on a cycle of redirects it never returns, which is the value
  \<open>None\<close>. The last argument is the run so far; the result is the whole run and the
  way the promise of \<open>downloadFile\<close> ends.

  \<open>first\<close> tells the call that the executor of the promise makes from the calls made
  in a response callback: an exception of \<open>get\<close> rejects the promise in the executor,
  and nothing catches it in a callback, so the process dies.

  \<open>downloadFile\<close> opens the write stream on the temp path before the first request,
  and no listener for the \<open>error\<close> event of the stream is ever added. \<open>openErr\<close> is the
  error with which the stream fails to open (the temp directory is missing, say): the
  event comes from the file system once the first request is on its way, before any
  answer of the network, and the process dies of it, whatever the answer would have
  been. (When \<open>get\<close> throws on the first call, the promise is rejected at once and
  the handler has answered by the time the event comes: that run is the rejected one.)
  The same holds for a stream that fails while the body is piped.
\<close>

partial_function (option) makeRequest ::
  "lib \<Rightarrow> string option \<Rightarrow> (string \<Rightarrow> reply) \<Rightarrow> string \<Rightarrow> bool \<Rightarrow> string \<Rightarrow> event list
     \<Rightarrow> (event list \<times> settled) option"
where
  "makeRequest L openErr net destPath first downloadUrl tr =
     (case getThrows L downloadUrl of
        Some msg \<Rightarrow> Some (tr, if first then Rejected msg else Crashed msg)
      | None \<Rightarrow>
          (case (if first then openErr else None) of
             Some e \<Rightarrow> Some (tr @ [Get downloadUrl], Crashed e)
           | None \<Rightarrow>
               (case net downloadUrl of
                  NetError err \<Rightarrow>
                    Some (tr @ [Get downloadUrl, Unlink destPath], Rejected err)
                | Reply statusCode location wr \<Rightarrow>
                    if 300 \<le> statusCode \<and> statusCode < 400 \<and> truthy location then
                      makeRequest L openErr net destPath False (orElse location [])
                        (tr @ [Get downloadUrl])
                    else if statusCode \<noteq> 200 then
                      Some (tr @ [Get downloadUrl],
                            Rejected (''Download failed with status ''
                                      @ toString 10 (int statusCode)))
                    else
                      (case wr of
                         None \<Rightarrow> Some (tr @ [Get downloadUrl], Resolved)
                       | Some e \<Rightarrow> Some (tr @ [Get downloadUrl], Crashed e)))))"

declare makeRequest.simps [code]

definition downloadFile ::
  "lib \<Rightarrow> string option \<Rightarrow> (string \<Rightarrow> reply) \<Rightarrow> string \<Rightarrow> string
     \<Rightarrow> (event list \<times> settled) option" where
  "downloadFile L openErr net url destPath =
     makeRequest L openErr net destPath True url [OpenWrite destPath]"

text \<open>
  The fourth server of the repository (src/Dockerfile, lines 231 to 797; it asks the
  resolver \<open>youtube-mp36\<close>) has the same \<open>extractVideoId\<close> and the same
  \<open>cleanupOldFiles\<close> as server.js, and a \<open>downloadFile\<close> that differs in one thing:
  \<open>makeRequest\<close> carries \<open>redirectCount\<close>, and rejects with \<open>Too many redirects\<close> once
  it is above 5. With the counter the recursion ends, and the function is total.
\<close>

function makeRequest_mp36 ::
  "lib \<Rightarrow> string option \<Rightarrow> (string \<Rightarrow> reply) \<Rightarrow> string \<Rightarrow> bool \<Rightarrow> string \<Rightarrow> nat \<Rightarrow> event list
     \<Rightarrow> event list \<times> settled"
where
  "makeRequest_mp36 L openErr net destPath first downloadUrl redirectCount tr =
     (if redirectCount > 5 then (tr, Rejected ''Too many redirects'')
      else
        (case getThrows L downloadUrl of
           Some msg \<Rightarrow> (tr, if first then Rejected msg else Crashed msg)
         | None \<Rightarrow>
             (case (if first then openErr else None) of
                Some e \<Rightarrow> (tr @ [Get downloadUrl], Crashed e)
              | None \<Rightarrow>
                  (case net downloadUrl of
                     NetError err \<Rightarrow> (tr @ [Get downloadUrl, Unlink destPath], Rejected err)
                   | Reply statusCode location wr \<Rightarrow>
                       if 300 \<le> statusCode \<and> statusCode < 400 \<and> truthy location then
                         makeRequest_mp36 L openErr net destPath False (orElse location [])
                           (redirectCount + 1) (tr @ [Get downloadUrl])
                       else if statusCode \<noteq> 200 then
                         (tr @ [Get downloadUrl],
                          Rejected (''Download failed with status ''
                                    @ toString 10 (int statusCode)))
                       else
                         (case wr of
                            None \<Rightarrow> (tr @ [Get downloadUrl], Resolved)
                          | Some e \<Rightarrow> (tr @ [Get downloadUrl], Crashed e))))))"
  by pat_completeness auto
termination
  by (relation "measure (\<lambda>(L, openErr, net, destPath, first, downloadUrl, redirectCount, tr).
                           6 - redirectCount)") auto

declare makeRequest_mp36.simps [simp del]

definition downloadFile_mp36 ::
  "lib \<Rightarrow> string option \<Rightarrow> (string \<Rightarrow> reply) \<Rightarrow> string \<Rightarrow> string \<Rightarrow> event list \<times> settled" where
  "downloadFile_mp36 L openErr net url destPath =
     makeRequest_mp36 L openErr net destPath True url 0 [OpenWrite destPath]"

text \<open>
  part_001: \<open>downloadFile\<close> calls itself on 301 and 302, with no counter either. Every
  call makes a promise of its own, so an exception of \<open>get\<close>, or of \<open>url.startsWith\<close>
  on an \<open>undefined\<close> argument (a redirect without \<open>Location\<close>), rejects. The write
  stream is opened after the 200 response and has a listener for its \<open>error\<close> event,
  which deletes the file and rejects.
\<close>

partial_function (option) downloadFile_p1 ::
  "lib \<Rightarrow> (string \<Rightarrow> reply) \<Rightarrow> string option \<Rightarrow> string \<Rightarrow> event list
     \<Rightarrow> (event list \<times> settled) option"
where
  "downloadFile_p1 L net url destPath tr =
     (case url of
        None \<Rightarrow> Some (tr, Rejected ''Cannot read properties of undefined'')
      | Some u \<Rightarrow>
          (case getThrows L u of
             Some msg \<Rightarrow> Some (tr, Rejected msg)
           | None \<Rightarrow>
               (case net u of
                  NetError err \<Rightarrow> Some (tr @ [Get u], Rejected err)
                | Reply statusCode location wr \<Rightarrow>
                    if statusCode = 301 \<or> statusCode = 302 then
                      downloadFile_p1 L net location destPath (tr @ [Get u])
                    else if statusCode \<noteq> 200 then
                      Some (tr @ [Get u],
                            Rejected (''Failed to download: '' @ toString 10 (int statusCode)))
                    else
                      (case wr of
                         None \<Rightarrow> Some (tr @ [Get u, OpenWrite destPath], Resolved)
                       | Some e \<Rightarrow>
                           Some (tr @ [Get u, OpenWrite destPath, Unlink destPath],
                                 Rejected e)))))"

declare downloadFile_p1.simps [code]

text \<open>What \<open>https.request\<close> delivers from a JSON service: a network error, a body that
  \<open>JSON.parse\<close> refuses, or the parsed object.\<close>

datatype 'a apiReply = ApiNetError string | ApiUnparsable | ApiJson 'a

definition rapidApiRequest :: "(string \<Rightarrow> 'a apiReply) \<Rightarrow> string \<Rightarrow> string + 'a" where
  "rapidApiRequest api path =
     (case api path of
        ApiNetError e \<Rightarrow> Inl e
      | ApiUnparsable \<Rightarrow> Inl ''Failed to parse API response''
      | ApiJson r \<Rightarrow> Inr r)"

section \<open>server.js: the RapidAPI server\<close>

text \<open>
  The fields of the resolver's answer that the handlers read. A field is \<open>None\<close> when
  it is absent; \<open>d_channel_name\<close>, \<open>d_thumbnail0\<close> and \<open>d_thumbnails0\<close> are the values of
  \<open>result.channel?.name\<close>, \<open>result.thumbnail?.[0]?.url\<close> and
  \<open>result.thumbnails?.[0]?.url\<close>.
\<close>

record apiAudio =
  audio_url :: "string option"
  audio_link :: "string option"

record apiFormat =
  f_mimeType :: "string option"
  f_format :: "string option"
  f_url :: "string option"
  f_link :: "string option"

record apiResult =
  r_link :: "string option"
  r_url :: "string option"
  r_downloadUrl :: "string option"
  r_title :: "string option"
  r_error :: "string option"
  r_message :: "string option"
  r_audio :: "apiAudio option"
  r_formats :: "apiFormat list option"

record videoDetails =
  d_error :: "string option"
  d_title :: "string option"
  d_channel_name :: "string option"
  d_author :: "string option"
  d_duration :: "int option"
  d_lengthSeconds :: "int option"
  d_thumbnail0 :: "string option"
  d_thumbnails0 :: "string option"

record getReq =
  g_auth :: authInfo
  g_url :: "string option"
  g_quality :: "string option"

definition orNum :: "int option \<Rightarrow> int \<Rightarrow> int" where
  "orNum a d = (case a of None \<Rightarrow> d | Some n \<Rightarrow> if n = 0 then d else n)"

text \<open>\<open>GET /api/info\<close>.\<close>

definition info :: "sessions \<Rightarrow> (string \<Rightarrow> videoDetails apiReply) \<Rightarrow> getReq \<Rightarrow> event list" where
  "info m api req =
     (if \<not> isAuthenticated (g_auth req) m then [Json 401 [(''error'', JStr ''Unauthorized'')]]
      else if \<not> truthy (g_url req) then [Json 400 [(''error'', JStr ''URL is required'')]]
      else
        (case extractVideoId (orElse (g_url req) []) of
           None \<Rightarrow> [Json 400 [(''error'', JStr ''Invalid YouTube URL'')]]
         | Some videoId \<Rightarrow>
             (let path = ''/video_details?id='' @ videoId
              in case rapidApiRequest api path of
                   Inl e \<Rightarrow> [ApiRequest path,
                             Json 500 [(''error'', JStr ''Failed to get video info'')]]
                 | Inr result \<Rightarrow>
                     if truthy (d_error result) \<or> \<not> truthy (d_title result) then
                       [ApiRequest path,
                        Json 400 [(''error'', JStr
                          ''Could not fetch video info. Please try a different video.'')]]
                     else
                       [ApiRequest path,
                        Json 200
                          [(''title'', JStr (orElse (d_title result) ''Unknown Title'')),
                           (''author'', JStr (orElse (orOpt (d_channel_name result)
                                                 (d_author result)) ''Unknown Artist'')),
                           (''duration'', JNum (orNum (d_duration result)
                                                 (orNum (d_lengthSeconds result) 0))),
                           (''thumbnail'', JStr (orElse (orOpt (d_thumbnail0 result)
                                                 (d_thumbnails0 result)) []))]])))"

text \<open>
  The block of the conversion handler that looks for the link in the answer, trying the
  field names one after the other: the result is \<open>downloadUrl\<close> and \<open>title\<close>.
\<close>

definition isAudioFormat :: "apiFormat \<Rightarrow> bool" where
  "isAudioFormat f =
     ((case f_mimeType f of None \<Rightarrow> False | Some t \<Rightarrow> str_includes t ''audio'')
      \<or> f_format f = Some ''mp3'')"

definition findDownloadUrl :: "apiResult \<Rightarrow> string option \<times> string" where
  "findDownloadUrl result =
     (if truthy (r_link result) then (r_link result, orElse (r_title result) ''audio'')
      else if truthy (r_url result) then (r_url result, orElse (r_title result) ''audio'')
      else if truthy (r_downloadUrl result) then
        (r_downloadUrl result, orElse (r_title result) ''audio'')
      else
        (case r_audio result of
           Some a \<Rightarrow> (orOpt (audio_url a) (audio_link a), orElse (r_title result) ''audio'')
         | None \<Rightarrow>
             (case r_formats result of
                None \<Rightarrow> (None, ''audio'')
              | Some formats \<Rightarrow>
                  (case find isAudioFormat formats of
                     None \<Rightarrow> (None, ''audio'')
                   | Some audioFormat \<Rightarrow>
                       (orOpt (f_url audioFormat) (f_link audioFormat),
                        orElse (r_title result) ''audio'')))))"

text \<open>\<open>sanitize(title).substring(0, 100) || 'audio'\<close>\<close>

definition safeTitle :: "lib \<Rightarrow> string \<Rightarrow> string" where
  "safeTitle L title =
     (let t = substring0 100 (sanitize L title) in if t = [] then ''audio'' else t)"

text \<open>
  What surrounds one run of \<open>GET /api/convert\<close>: the resolver, the error with which
  the write stream on the temp path fails to open (when it does), the network, the temp
  path the handler makes up from the time and a random number, the outcome of
  \<open>fs.stat(tempPath)\<close> (\<open>Inr\<close> the size), and how the read stream ends: \<open>StreamError h\<close>
  is an \<open>error\<close> event with \<open>res.headersSent = h\<close>; \<open>close\<close> follows in either case.
\<close>

datatype streamEnd = StreamClosed | StreamError bool

record world =
  w_api :: "string \<Rightarrow> apiResult apiReply"
  w_open :: "string option"
  w_net :: "string \<Rightarrow> reply"
  w_tempPath :: string
  w_stat :: "string + nat"
  w_stream :: streamEnd

text \<open>The response of the \<open>catch\<close> block of the handler.\<close>

definition conversionFailed :: "string \<Rightarrow> event" where
  "conversionFailed message =
     Json 500 [(''error'', JStr ''Conversion failed. Please try again.''),
               (''details'', JStr message)]"

text \<open>
  \<open>GET /api/convert\<close>. The handler never runs the temp file through \<open>unlink\<close> in its
  \<open>catch\<close> block; the only deletions are the one of \<open>downloadFile\<close> on a network error
  and the one on \<open>close\<close> of the read stream. \<open>SendFile p name\<close> stands for the three
  headers and \<open>readStream.pipe(res)\<close>; the header carries
  \<open>encodeURIComponent(name)\<close>.
\<close>

definition convert_get :: "lib \<Rightarrow> sessions \<Rightarrow> world \<Rightarrow> getReq \<Rightarrow> event list option" where
  "convert_get L m w req =
     (if \<not> isAuthenticated (g_auth req) m then
        Some [Json 401 [(''error'', JStr ''Unauthorized'')]]
      else if \<not> truthy (g_url req) \<or> \<not> isURL L (orElse (g_url req) []) then
        Some [Json 400 [(''error'', JStr ''Invalid YouTube URL'')]]
      else
        (case extractVideoId (orElse (g_url req) []) of
           None \<Rightarrow> Some [Json 400 [(''error'', JStr ''Could not extract video ID from URL'')]]
         | Some videoId \<Rightarrow>
             (let quality = (case g_quality req of None \<Rightarrow> ''128'' | Some q \<Rightarrow> q);
                  path = ''/download?id='' @ videoId @ ''&format=mp3&quality='' @ quality @ ''kbps''
              in case rapidApiRequest (w_api w) path of
                   Inl e \<Rightarrow> Some [ApiRequest path, conversionFailed e]
                 | Inr result \<Rightarrow>
                     (case findDownloadUrl result of
                        (downloadUrl, title) \<Rightarrow>
                          if \<not> truthy downloadUrl then
                            Some [ApiRequest path,
                                  Json 400
                                    [(''error'', JStr
                                       ''Could not get download link. The video might be restricted or unavailable.''),
                                     (''details'', JStr (orElse (orOpt (r_error result)
                                                          (r_message result)) ''Unknown error''))]]
                          else
                            (let filename = safeTitle L title @ ''.mp3'';
                                 tempPath = w_tempPath w
                             in case downloadFile L (w_open w) (w_net w) (orElse downloadUrl [])
                                       tempPath of
                                  None \<Rightarrow> None
                                | Some (tr, Rejected e) \<Rightarrow>
                                    Some (ApiRequest path # tr @ [conversionFailed e])
                                | Some (tr, Crashed e) \<Rightarrow> Some (ApiRequest path # tr)
                                | Some (tr, Resolved) \<Rightarrow>
                                    (case w_stat w of
                                       Inl e \<Rightarrow>
                                         Some (ApiRequest path # tr
                                               @ [Stat tempPath, conversionFailed e])
                                     | Inr bytes \<Rightarrow>
                                         Some (ApiRequest path # tr
                                               @ [Stat tempPath, SendFile tempPath filename]
                                               @ (case w_stream w of
                                                    StreamClosed \<Rightarrow> [Unlink tempPath]
                                                  | StreamError sent \<Rightarrow>
                                                      (if sent then []
                                                       else [Json 500 [(''error'',
                                                               JStr ''Download failed'')]])
                                                      @ [Unlink tempPath]))))))))"

section \<open>part_001: the yt-dlp server and the Cobalt server\<close>

definition allowedDomains :: "string list" where
  "allowedDomains = [''youtube.com'', ''www.youtube.com'', ''m.youtube.com'', ''youtu.be'']"

definition isValidYouTubeUrl :: "lib \<Rightarrow> string \<Rightarrow> bool" where
  "isValidYouTubeUrl L url =
     (if \<not> isURL L url then False
      else (case hostname L url of
              None \<Rightarrow> False
            | Some h \<Rightarrow> h \<in> set allowedDomains))"

text \<open>
  The callback of \<open>res.download\<close>: it deletes the temp files, and answers 500 when the
  transfer failed before the headers went out (\<open>SendError h\<close> is a failure with
  \<open>res.headersSent = h\<close>).
\<close>

datatype sendEnd = SendOk | SendError bool

definition sendFinish :: "string list \<Rightarrow> sendEnd \<Rightarrow> event list" where
  "sendFinish temps e =
     map Unlink temps
     @ (case e of
          SendOk \<Rightarrow> []
        | SendError sent \<Rightarrow>
            if sent then [] else [Json 500 [(''error'', JStr ''Download failed'')]])"

text \<open>The \<open>catch\<close> block of both servers: delete the temp files that have a path, then
  answer.\<close>

definition conversionFailed_p1 :: "string list \<Rightarrow> event list" where
  "conversionFailed_p1 temps =
     map Unlink temps
     @ [Json 500 [(''error'', JStr ''Conversion failed. Please check the URL and try again.'')]]"

text \<open>
  The yt-dlp server. \<open>y_mkdir\<close>, \<open>y_download\<close> and \<open>y_ffmpeg\<close> are the errors of
  \<open>ensureTempDir\<close>, of the first \<open>execPromise\<close> and of ffmpeg, when they fail;
  \<open>y_info\<close> is the error of the second \<open>execPromise\<close> or of \<open>JSON.parse\<close>, or else
  \<open>info.title\<close>.
\<close>

record ytWorld =
  y_mkdir :: "string option"
  y_tempVideoPath :: string
  y_tempAudioPath :: string
  y_download :: "string option"
  y_info :: "string + string option"
  y_ffmpeg :: "string option"
  y_send :: sendEnd

definition convert_post_ytdlp :: "lib \<Rightarrow> ytWorld \<Rightarrow> string option \<Rightarrow> event list" where
  "convert_post_ytdlp L w url =
     (if \<not> truthy url then [Json 400 [(''error'', JStr ''URL is required'')]]
      else if \<not> isValidYouTubeUrl L (orElse url []) then
        [Json 400 [(''error'', JStr ''Invalid YouTube URL. Only YouTube links are supported.'')]]
      else
        (case y_mkdir w of
           Some e \<Rightarrow> conversionFailed_p1 []
         | None \<Rightarrow>
             (let tempVideoPath = y_tempVideoPath w;
                  tempAudioPath = y_tempAudioPath w;
                  download = Exec [orElse url [], ''-o'', tempVideoPath, ''-f'', ''bestaudio'',
                                   ''--no-playlist'', ''--restrict-filenames'', ''--no-warnings''];
                  dump = Exec [orElse url [], ''--dump-single-json'', ''--no-warnings'']
              in case y_download w of
                   Some e \<Rightarrow> download # conversionFailed_p1 [tempVideoPath, tempAudioPath]
                 | None \<Rightarrow>
                     (case y_info w of
                        Inl e \<Rightarrow>
                          [download, dump] @ conversionFailed_p1 [tempVideoPath, tempAudioPath]
                      | Inr title \<Rightarrow>
                          (let safeTitle = substring0 100 (sanitize L (orElse title ''audio''))
                           in case y_ffmpeg w of
                                Some e \<Rightarrow>
                                  [download, dump, Ffmpeg tempVideoPath tempAudioPath]
                                  @ conversionFailed_p1 [tempVideoPath, tempAudioPath]
                              | None \<Rightarrow>
                                  [download, dump, Ffmpeg tempVideoPath tempAudioPath,
                                   SendFile tempAudioPath (safeTitle @ ''.mp3'')]
                                  @ sendFinish [tempVideoPath, tempAudioPath] (y_send w))))))"

text \<open>The Cobalt server.\<close>

record cobaltJson =
  c_status :: "string option"
  c_text :: "string option"
  c_url :: "string option"
  c_filename :: "string option"

definition getCobaltDownloadUrl ::
  "(string \<Rightarrow> cobaltJson apiReply) \<Rightarrow> string \<Rightarrow> string + (string option \<times> string)" where
  "getCobaltDownloadUrl api youtubeUrl =
     (case api youtubeUrl of
        ApiNetError e \<Rightarrow> Inl (''Cobalt API request failed: '' @ e)
      | ApiUnparsable \<Rightarrow> Inl ''Failed to parse Cobalt response''
      | ApiJson result \<Rightarrow>
          if c_status result = Some ''error'' then Inl (orElse (c_text result) ''Cobalt API error'')
          else if c_status result = Some ''redirect'' \<or> c_status result = Some ''stream'' then
            Inr (c_url result, orElse (c_filename result) ''audio.mp3'')
          else if truthy (c_url result) then
            Inr (c_url result, orElse (c_filename result) ''audio.mp3'')
          else Inl ''Unexpected response from Cobalt API'')"

record cobaltWorld =
  k_mkdir :: "string option"
  k_api :: "string \<Rightarrow> cobaltJson apiReply"
  k_net :: "string \<Rightarrow> reply"
  k_tempAudioPath :: string
  k_send :: sendEnd

definition convert_post_cobalt ::
  "lib \<Rightarrow> cobaltWorld \<Rightarrow> string option \<Rightarrow> event list option" where
  "convert_post_cobalt L w url =
     (if \<not> truthy url then Some [Json 400 [(''error'', JStr ''URL is required'')]]
      else if \<not> isValidYouTubeUrl L (orElse url []) then
        Some [Json 400 [(''error'',
                JStr ''Invalid YouTube URL. Only YouTube links are supported.'')]]
      else
        (case k_mkdir w of
           Some e \<Rightarrow> Some (conversionFailed_p1 [])
         | None \<Rightarrow>
             (case getCobaltDownloadUrl (k_api w) (orElse url []) of
                Inl e \<Rightarrow> Some (CobaltRequest (orElse url []) # conversionFailed_p1 [])
              | Inr (cobaltUrl, cobaltFilename) \<Rightarrow>
                  (let safeFilename =
                         substring0 100 (sanitize L (orElse (Some cobaltFilename) ''audio''));
                       tempAudioPath = k_tempAudioPath w
                   in case downloadFile_p1 L (k_net w) cobaltUrl tempAudioPath [] of
                        None \<Rightarrow> None
                      | Some (tr, Rejected e) \<Rightarrow>
                          Some (CobaltRequest (orElse url []) # tr
                                @ conversionFailed_p1 [tempAudioPath])
                      | Some (tr, Crashed e) \<Rightarrow> Some (CobaltRequest (orElse url []) # tr)
                      | Some (tr, Resolved) \<Rightarrow>
                          Some (CobaltRequest (orElse url []) # tr
                                @ [SendFile tempAudioPath (safeFilename @ ''.mp3'')]
                                @ sendFinish [tempAudioPath] (k_send w))))))"

section \<open>Specification-side definitions\<close>

text \<open>
  What the specification says a sweep leaves behind: the entries whose modification time
  is not older than the threshold, unchanged.
\<close>

definition sweep_spec :: "rat \<Rightarrow> tempdir \<Rightarrow> tempdir" where
  "sweep_spec now d =
     (\<lambda>f. case d f of
            None \<Rightarrow> None
          | Some n \<Rightarrow> if now - mtimeMs n > MAX_FILE_AGE_MS then None else Some n)"

text \<open>An entry is stale when it exists and is older than the threshold; it can be
  reclaimed when, in addition, \<open>unlink\<close> can remove it.\<close>

definition stale :: "rat \<Rightarrow> tempdir \<Rightarrow> string \<Rightarrow> bool" where
  "stale now d f =
     (case d f of None \<Rightarrow> False | Some n \<Rightarrow> now - mtimeMs n > MAX_FILE_AGE_MS)"

definition reclaimed :: "rat \<Rightarrow> tempdir \<Rightarrow> string \<Rightarrow> bool" where
  "reclaimed now d f =
     (case d f of
        None \<Rightarrow> False
      | Some n \<Rightarrow> now - mtimeMs n > MAX_FILE_AGE_MS \<and> removable n)"


text \<open>
  A chain of redirects: every URL of it is one that \<open>get\<close> accepts, \<open>u\<close> answers 301
  or 302 with the first URL of the list as its \<open>Location\<close>, that one with the next,
  and the last URL answers 200.
\<close>

fun redirectChain :: "lib \<Rightarrow> (string \<Rightarrow> reply) \<Rightarrow> string \<Rightarrow> string list \<Rightarrow> bool" where
  "redirectChain L net u [] = (getThrows L u = None \<and> net u = Reply 200 None None)"
| "redirectChain L net u (v # vs) =
     (getThrows L u = None \<and> v \<noteq> []
      \<and> (net u = Reply 301 (Some v) None \<or> net u = Reply 302 (Some v) None)
      \<and> redirectChain L net v vs)"

fun isGet :: "event \<Rightarrow> bool" where
  "isGet (Get u) = True"
| "isGet _ = False"

text \<open>The messages the handlers write themselves, and the shapes of an error body: the
  message alone, or the message and a \<open>details\<close> field.\<close>

definition shortMessages :: "string list" where
  "shortMessages =
     [''Unauthorized'', ''Invalid password'', ''URL is required'', ''Invalid YouTube URL'',
      ''Could not fetch video info. Please try a different video.'',
      ''Failed to get video info'', ''Could not extract video ID from URL'',
      ''Could not get download link. The video might be restricted or unavailable.'',
      ''Conversion failed. Please try again.'', ''Download failed'',
      ''Invalid YouTube URL. Only YouTube links are supported.'',
      ''Conversion failed. Please check the URL and try again.'']"

fun plainError :: "event \<Rightarrow> bool" where
  "plainError (Json status b) =
     (status < 400 \<or>
      (case b of
         [(k, JStr msg)] \<Rightarrow> k = ''error'' \<and> msg \<in> set shortMessages
       | _ \<Rightarrow> False))"
| "plainError _ = True"

fun errorWithDetails :: "event \<Rightarrow> bool" where
  "errorWithDetails (Json status b) =
     (status < 400 \<or>
      (case b of
         [(k, JStr msg)] \<Rightarrow> k = ''error'' \<and> msg \<in> set shortMessages
       | [(k, JStr msg), (k', JStr d)] \<Rightarrow>
           k = ''error'' \<and> msg \<in> set shortMessages \<and> k' = ''details''
       | _ \<Rightarrow> False))"
| "errorWithDetails _ = True"

text \<open>A run that is nothing but one answer with status 400.\<close>

fun rejected400 :: "event list \<Rightarrow> bool" where
  "rejected400 [Json status b] = (status = 400)"
| "rejected400 _ = False"

fun isJson :: "event \<Rightarrow> bool" where
  "isJson (Json status b) = True"
| "isJson _ = False"

definition conversionFailedBody :: body where
  "conversionFailedBody =
     [(''error'', JStr ''Conversion failed. Please check the URL and try again.'')]"

section \<open>Example inputs\<close>

text \<open>
  An instance of the library parameters, for running the handlers on the examples below.
  On those inputs it returns what the libraries return: a URL passes when it starts with
  one of the two schemes, and that scheme is its protocol; the host name of a plain
  \<open>scheme://host/...\<close> URL is the text up to the first of \<open>/ ? # :\<close>; a text that
  starts with neither scheme is not an absolute URL; and a title loses the characters that
  sanitize-filename removes (\<open>/ ? < > \ : * | "\<close>, by character code, and the control
  characters).
\<close>

definition hostOf :: "string \<Rightarrow> string option" where
  "hostOf u =
     (if startsWith u ''https://'' then Some (takeWhile (\<lambda>c. c \<notin> set ''/?#:'') (drop 8 u))
      else if startsWith u ''http://'' then Some (takeWhile (\<lambda>c. c \<notin> set ''/?#:'') (drop 7 u))
      else None)"

definition protoOf :: "string \<Rightarrow> string option" where
  "protoOf u =
     (if startsWith u ''https://'' then Some ''https:''
      else if startsWith u ''http://'' then Some ''http:''
      else None)"

definition stripIllegal :: "string \<Rightarrow> string" where
  "stripIllegal t =
     filter (\<lambda>c. (of_char c :: nat) \<notin> set [47, 63, 60, 62, 92, 58, 42, 124, 34]
                 \<and> 32 \<le> (of_char c :: nat)
                 \<and> \<not> (128 \<le> (of_char c :: nat) \<and> (of_char c :: nat) \<le> 159)) t"

definition lib_example :: lib where
  "lib_example =
     \<lparr> isURL = (\<lambda>u. startsWith u ''http://'' \<or> startsWith u ''https://''),
       hostname = hostOf,
       protocol = protoOf,
       sanitize = stripIllegal \<rparr>"

text \<open>A network given by a table; no other host exists.\<close>

definition netOf :: "(string \<times> reply) list \<Rightarrow> string \<Rightarrow> reply" where
  "netOf tbl u = (case map_of tbl u of Some r \<Rightarrow> r | None \<Rightarrow> NetError ''ENOTFOUND'')"

definition six_redirects :: "(string \<times> reply) list" where
  "six_redirects =
     [(''http://h/0'', Reply 302 (Some ''http://h/1'') None),
      (''http://h/1'', Reply 302 (Some ''http://h/2'') None),
      (''http://h/2'', Reply 302 (Some ''http://h/3'') None),
      (''http://h/3'', Reply 302 (Some ''http://h/4'') None),
      (''http://h/4'', Reply 302 (Some ''http://h/5'') None),
      (''http://h/5'', Reply 302 (Some ''http://h/6'') None),
      (''http://h/6'', Reply 200 None None)]"

definition noResult :: apiResult where
  "noResult = \<lparr> r_link = None, r_url = None, r_downloadUrl = None, r_title = None,
                 r_error = None, r_message = None, r_audio = None, r_formats = None \<rparr>"

text \<open>A resolver that gives the same answer to every request, a write stream that
  opens, and a download server that gives the same reply at every URL.\<close>

definition example_world :: "apiResult \<Rightarrow> reply \<Rightarrow> world" where
  "example_world result rep =
     \<lparr> w_api = (\<lambda>path. ApiJson result),
       w_open = None,
       w_net = (\<lambda>u. rep),
       w_tempPath = ''/app/temp/1700000000000-k3j2x.mp3'',
       w_stat = Inr 4096,
       w_stream = StreamClosed \<rparr>"

definition example_req :: "string \<Rightarrow> getReq" where
  "example_req u =
     \<lparr> g_auth = \<lparr> header_session = Some ''s1'', query_session = None \<rparr>,
       g_url = Some u, g_quality = None \<rparr>"

definition example_ytWorld :: "string option \<Rightarrow> ytWorld" where
  "example_ytWorld title =
     \<lparr> y_mkdir = None,
       y_tempVideoPath = ''/app/temp/1700000000000-k3j2x.webm'',
       y_tempAudioPath = ''/app/temp/1700000000000-k3j2x.mp3'',
       y_download = None, y_info = Inr title, y_ffmpeg = None, y_send = SendOk \<rparr>"

definition example_cobaltWorld :: "cobaltJson apiReply \<Rightarrow> reply \<Rightarrow> cobaltWorld" where
  "example_cobaltWorld answer rep =
     \<lparr> k_mkdir = None,
       k_api = (\<lambda>u. answer),
       k_net = (\<lambda>u. rep),
       k_tempAudioPath = ''/app/temp/1700000000000-k3j2x.mp3'',
       k_send = SendOk \<rparr>"

text \<open>
  Two temp directories. The first holds an old file and a new one. The second holds a
  subdirectory, which \<open>unlink\<close> cannot remove, and an old file.
\<close>

definition example_dir :: tempdir where
  "example_dir =
     [''old.mp3'' \<mapsto> \<lparr> mtimeMs = 0, removable = True \<rparr>,
      ''new.mp3'' \<mapsto> \<lparr> mtimeMs = 1900000, removable = True \<rparr>]"

definition example_dir_sub :: tempdir where
  "example_dir_sub =
     [''sub'' \<mapsto> \<lparr> mtimeMs = 0, removable = False \<rparr>,
      ''old.mp3'' \<mapsto> \<lparr> mtimeMs = 0, removable = True \<rparr>]"

section \<open>Properties of video-ID extraction\<close>

lemma startsWith_iff: "startsWith s p \<longleftrightarrow> (\<exists>r. s = p @ r)"
proof
  assume "startsWith s p"
  then have "s = p @ drop (length p) s"
    unfolding startsWith_def by (metis append_take_drop_id)
  then show "\<exists>r. s = p @ r" ..
next
  assume "\<exists>r. s = p @ r"
  then show "startsWith s p"
    unfolding startsWith_def by auto
qed

lemma matchHere_Cons:
  "matchHere (m # ms) s =
     (if startsWith s m \<and> length (take 11 (drop (length m) s)) = 11
         \<and> list_all isIdChar (take 11 (drop (length m) s))
      then Some (take 11 (drop (length m) s)) else matchHere ms s)"
  by (simp add: Let_def)

lemma matchHere_sound:
  "matchHere ms s = Some v \<Longrightarrow>
     \<exists>m post. m \<in> set ms \<and> s = m @ v @ post \<and> length v = 11 \<and> list_all isIdChar v"
proof (induction ms)
  case Nil
  then show ?case by simp
next
  case (Cons m ms)
  define cand where "cand = take 11 (drop (length m) s)"
  show ?case
  proof (cases "startsWith s m \<and> length cand = 11 \<and> list_all isIdChar cand")
    case True
    with Cons.prems have v: "v = cand"
      unfolding matchHere_Cons cand_def by (auto simp del: matchHere.simps split: if_splits)
    from True obtain r where r: "s = m @ r"
      unfolding startsWith_iff by blast
    have "cand = take 11 r" using r by (simp add: cand_def)
    then have "r = cand @ drop 11 r" by simp
    with r have "s = m @ cand @ drop 11 r" by simp
    with True v show ?thesis
      by (intro exI[of _ m] exI[of _ "drop 11 r"]) simp
  next
    case False
    with Cons.prems have "matchHere ms s = Some v"
      unfolding matchHere_Cons cand_def by (auto simp del: matchHere.simps split: if_splits)
    from Cons.IH[OF this] show ?thesis by auto
  qed
qed

lemma matchHere_complete:
  "m \<in> set ms \<Longrightarrow> length v = 11 \<Longrightarrow> list_all isIdChar v \<Longrightarrow>
     matchHere ms (m @ v @ post) \<noteq> None"
proof (induction ms)
  case Nil
  then show ?case by simp
next
  case (Cons a ms)
  show ?case
  proof (cases "a = m")
    case True
    have "startsWith (m @ v @ post) m" by (simp add: startsWith_def)
    moreover have "take 11 (drop (length m) (m @ v @ post)) = v"
      using Cons.prems(2) by simp
    ultimately show ?thesis
      unfolding True matchHere_Cons using Cons.prems(2,3) by (simp del: matchHere.simps)
  next
    case False
    with Cons.prems have "m \<in> set ms" by simp
    from Cons.IH[OF this Cons.prems(2,3)] show ?thesis
      unfolding matchHere_Cons by (simp del: matchHere.simps)
  qed
qed

lemma urlPattern_sound:
  "urlPattern s = Some v \<Longrightarrow>
     \<exists>pre m post. m \<in> set markers \<and> s = pre @ m @ v @ post \<and> length v = 11 \<and> list_all isIdChar v"
proof (induction s)
  case Nil
  then have "matchHere markers [] = Some v" by simp
  from matchHere_sound[OF this] show ?case by auto
next
  case (Cons c cs)
  show ?case
  proof (cases "matchHere markers (c # cs)")
    case None
    with Cons.prems have "urlPattern cs = Some v" by simp
    from Cons.IH[OF this] obtain pre m post where
      "m \<in> set markers" "cs = pre @ m @ v @ post" "length v = 11" "list_all isIdChar v"
      by blast
    then show ?thesis
      by (intro exI[of _ "c # pre"] exI[of _ m] exI[of _ post]) simp
  next
    case (Some w)
    with Cons.prems have "matchHere markers (c # cs) = Some v" by simp
    from matchHere_sound[OF this] obtain m post where
      "m \<in> set markers" "c # cs = m @ v @ post" "length v = 11" "list_all isIdChar v"
      by blast
    then show ?thesis
      by (intro exI[of _ "[]"] exI[of _ m] exI[of _ post]) simp
  qed
qed

lemma urlPattern_complete:
  "matchHere markers s \<noteq> None \<Longrightarrow> urlPattern (pre @ s) \<noteq> None"
proof (induction pre)
  case Nil
  then show ?case by (cases s) auto
next
  case (Cons c pre)
  then show ?case by (auto split: option.splits)
qed

lemma extractVideoId_unfold:
  "extractVideoId s = (case urlPattern s of Some v \<Rightarrow> Some v | None \<Rightarrow> idPattern s)"
  by (simp add: extractVideoId_def split: option.splits)

text \<open>
  Claim C10. Whenever extraction returns an id, the id is exactly eleven characters long
  and every one of them is an ASCII letter, a digit, an underscore or a hyphen.
\<close>

theorem extractVideoId_shape:
  "extractVideoId s = Some v \<Longrightarrow> length v = 11 \<and> list_all isIdChar v"
proof (cases "urlPattern s")
  case None
  assume "extractVideoId s = Some v"
  with None have "idPattern s = Some v" by (simp add: extractVideoId_unfold)
  then show ?thesis by (auto simp: idPattern_def split: if_splits)
next
  case (Some w)
  assume "extractVideoId s = Some v"
  with Some have "urlPattern s = Some v" by (simp add: extractVideoId_unfold)
  from urlPattern_sound[OF this] show ?thesis by blast
qed

theorem extractVideoId_shape_witness:
  "extractVideoId ''https://youtu.be/dQw4w9WgXcQ'' = Some ''dQw4w9WgXcQ''
   \<and> length ''dQw4w9WgXcQ'' = 11 \<and> list_all isIdChar ''dQw4w9WgXcQ''"
proof -
  have h: "extractVideoId ''https://youtu.be/dQw4w9WgXcQ'' = Some ''dQw4w9WgXcQ''"
    by (simp add: extractVideoId_def markers_def startsWith_def isIdChar_def idPattern_def)
  from extractVideoId_shape[OF h] h show ?thesis by simp
qed

text \<open>
  Claim C5, amended. The URL pattern is a search, not a whole-token match: extraction
  returns an id exactly when somewhere in the string one of the four markers
  (\<open>youtube.com/watch?v=\<close>, \<open>youtu.be/\<close>, \<open>youtube.com/embed/\<close>, \<open>youtube.com/v/\<close>) is
  followed by eleven id characters, whatever stands before the marker and after the
  eleventh character, or when the whole string is eleven id characters. The id returned
  is such an eleven-character run right after a marker, or the whole string. So a bare
  id inside a longer string that holds no marker is not accepted.
\<close>

theorem extractVideoId_forms:
  "(extractVideoId s \<noteq> None \<longleftrightarrow>
      (\<exists>pre m v post. m \<in> set markers \<and> s = pre @ m @ v @ post
                       \<and> length v = 11 \<and> list_all isIdChar v)
      \<or> (length s = 11 \<and> list_all isIdChar s))
   \<and> (\<forall>v. extractVideoId s = Some v \<longrightarrow>
         (\<exists>pre m post. m \<in> set markers \<and> s = pre @ m @ v @ post) \<or> s = v)"
proof -
  let ?marked = "\<exists>pre m v post. m \<in> set markers \<and> s = pre @ m @ v @ post
                       \<and> length v = 11 \<and> list_all isIdChar v"
  let ?bare = "length s = 11 \<and> list_all isIdChar s"
  have fwd: "?marked \<or> ?bare" if "extractVideoId s \<noteq> None"
  proof (cases "urlPattern s")
    case None
    with that have "idPattern s \<noteq> None" by (simp add: extractVideoId_unfold)
    then have ?bare by (auto simp: idPattern_def split: if_splits)
    then show ?thesis ..
  next
    case (Some w)
    from urlPattern_sound[OF this] have ?marked by blast
    then show ?thesis ..
  qed
  have bwd1: "extractVideoId s \<noteq> None" if ?marked
  proof -
    from that obtain pre m v post where h: "m \<in> set markers" "s = pre @ m @ v @ post"
       "length v = 11" "list_all isIdChar v" by blast
    have "urlPattern (pre @ (m @ v @ post)) \<noteq> None"
      by (rule urlPattern_complete) (rule matchHere_complete[OF h(1,3,4)])
    with h(2) show ?thesis
      by (auto simp: extractVideoId_unfold split: option.splits)
  qed
  have bwd2: "extractVideoId s \<noteq> None" if ?bare
    using that by (auto simp: extractVideoId_unfold idPattern_def split: option.splits)
  have val: "(\<exists>pre m post. m \<in> set markers \<and> s = pre @ m @ v @ post) \<or> s = v"
    if "extractVideoId s = Some v" for v
  proof (cases "urlPattern s")
    case None
    with that have "idPattern s = Some v" by (simp add: extractVideoId_unfold)
    then have "s = v" by (auto simp: idPattern_def split: if_splits)
    then show ?thesis ..
  next
    case (Some w)
    with that have "urlPattern s = Some v" by (simp add: extractVideoId_unfold)
    from urlPattern_sound[OF this] show ?thesis by blast
  qed
  from fwd bwd1 bwd2 val show ?thesis by blast
qed

theorem extractVideoId_forms_witness:
  "extractVideoId ''https://www.youtube.com/watch?v=dQw4w9WgXcQ&t=42'' = Some ''dQw4w9WgXcQ''
   \<and> ((\<exists>pre m post. m \<in> set markers
          \<and> ''https://www.youtube.com/watch?v=dQw4w9WgXcQ&t=42'' = pre @ m @ ''dQw4w9WgXcQ'' @ post)
        \<or> ''https://www.youtube.com/watch?v=dQw4w9WgXcQ&t=42'' = ''dQw4w9WgXcQ'')"
proof -
  have h: "extractVideoId ''https://www.youtube.com/watch?v=dQw4w9WgXcQ&t=42'' = Some ''dQw4w9WgXcQ''"
    by (simp add: extractVideoId_def markers_def startsWith_def isIdChar_def idPattern_def)
  from extractVideoId_forms[of "''https://www.youtube.com/watch?v=dQw4w9WgXcQ&t=42''"] h
  show ?thesis by blast
qed

text \<open>
  Claim C5 as stated fails: an id that is the start of a longer token, in a string that
  is no URL at all, is accepted.
\<close>

theorem extractVideoId_unanchored:
  "extractVideoId ''see youtu.be/dQw4w9WgXcQEXTRA for more'' = Some ''dQw4w9WgXcQ''"
  by (simp add: extractVideoId_def markers_def startsWith_def isIdChar_def idPattern_def)

section \<open>Properties of the sweep\<close>

lemma sweepLoop_no_failure:
  "set files \<subseteq> dom d \<Longrightarrow> distinct files \<Longrightarrow> (\<forall>f n. d f = Some n \<longrightarrow> removable n) \<Longrightarrow>
     sweepLoop now files d = ((\<lambda>f. if f \<in> set files \<and> stale now d f then None else d f), None)"
proof (induction files arbitrary: d)
  case Nil
  then show ?case by simp
next
  case (Cons fl files)
  from Cons.prems obtain n where n: "d fl = Some n" by auto
  with Cons.prems have rem: "removable n" by blast
  have nin: "fl \<notin> set files" and 2: "distinct files" using Cons.prems by auto
  show ?case
  proof (cases "now - mtimeMs n > MAX_FILE_AGE_MS")
    case True
    let ?d' = "d(fl := None)"
    have 1: "set files \<subseteq> dom ?d'" using Cons.prems by auto
    have 3: "\<forall>f n. ?d' f = Some n \<longrightarrow> removable n" using Cons.prems by auto
    have "sweepLoop now (fl # files) d = sweepLoop now files ?d'"
      using n rem True by (simp add: stat_def unlink_def)
    also have "\<dots> = ((\<lambda>f. if f \<in> set files \<and> stale now ?d' f then None else ?d' f), None)"
      by (rule Cons.IH[OF 1 2 3])
    also have "(\<lambda>f. if f \<in> set files \<and> stale now ?d' f then None else ?d' f)
        = (\<lambda>f. if f \<in> set (fl # files) \<and> stale now d f then None else d f)"
    proof (rule ext)
      fix f show "(if f \<in> set files \<and> stale now ?d' f then None else ?d' f)
        = (if f \<in> set (fl # files) \<and> stale now d f then None else d f)"
        using n True nin by (cases "f = fl") (simp_all add: stale_def)
    qed
    finally show ?thesis .
  next
    case False
    have 1: "set files \<subseteq> dom d" using Cons.prems by auto
    have 3: "\<forall>f n. d f = Some n \<longrightarrow> removable n" using Cons.prems by auto
    have "sweepLoop now (fl # files) d = sweepLoop now files d"
      using n False by (simp add: stat_def)
    also have "\<dots> = ((\<lambda>f. if f \<in> set files \<and> stale now d f then None else d f), None)"
      by (rule Cons.IH[OF 1 2 3])
    also have "(\<lambda>f. if f \<in> set files \<and> stale now d f then None else d f)
        = (\<lambda>f. if f \<in> set (fl # files) \<and> stale now d f then None else d f)"
    proof (rule ext)
      fix f show "(if f \<in> set files \<and> stale now d f then None else d f)
        = (if f \<in> set (fl # files) \<and> stale now d f then None else d f)"
        using n False by (cases "f = fl") (simp_all add: stale_def)
    qed
    finally show ?thesis .
  qed
qed

text \<open>part_001: a complete description of the directory after the loop, failures included.\<close>

lemma sweepLoop_p1_result:
  "fst (sweepLoop_p1 now files d) =
     (\<lambda>f. if f \<in> set files \<and> reclaimed now d f then None else d f)"
proof (induction files arbitrary: d)
  case Nil
  then show ?case by simp
next
  case (Cons fl files)
  show ?case
  proof (cases "reclaimed now d fl")
    case True
    then obtain n where n: "d fl = Some n" "now - mtimeMs n > MAX_FILE_AGE_MS" "removable n"
      by (auto simp: reclaimed_def split: option.splits)
    let ?d' = "d(fl := None)"
    have "fst (sweepLoop_p1 now (fl # files) d) = fst (sweepLoop_p1 now files ?d')"
      using n by (simp add: stat_def unlink_def split: prod.splits)
    also have "\<dots> = (\<lambda>f. if f \<in> set files \<and> reclaimed now ?d' f then None else ?d' f)"
      by (rule Cons.IH)
    also have "\<dots> = (\<lambda>f. if f \<in> set (fl # files) \<and> reclaimed now d f then None else d f)"
    proof (rule ext)
      fix f show "(if f \<in> set files \<and> reclaimed now ?d' f then None else ?d' f)
        = (if f \<in> set (fl # files) \<and> reclaimed now d f then None else d f)"
        using True by (cases "f = fl") (simp_all add: reclaimed_def)
    qed
    finally show ?thesis .
  next
    case False
    have "sweepLoop_p1 now (fl # files) d = sweepLoop_p1 now files d"
    proof (cases "d fl")
      case None
      then show ?thesis by (simp add: stat_def)
    next
      case (Some n)
      with False show ?thesis
        by (simp add: stat_def unlink_def reclaimed_def)
    qed
    then have "fst (sweepLoop_p1 now (fl # files) d) = fst (sweepLoop_p1 now files d)"
      by simp
    also have "\<dots> = (\<lambda>f. if f \<in> set files \<and> reclaimed now d f then None else d f)"
      by (rule Cons.IH)
    also have "\<dots> = (\<lambda>f. if f \<in> set (fl # files) \<and> reclaimed now d f then None else d f)"
    proof (rule ext)
      fix f show "(if f \<in> set files \<and> reclaimed now d f then None else d f)
        = (if f \<in> set (fl # files) \<and> reclaimed now d f then None else d f)"
        using False by (cases "f = fl") simp_all
    qed
    finally show ?thesis .
  qed
qed

text \<open>server.js: whatever happens, an entry is either untouched or a stale one that was removed.\<close>

lemma sweepLoop_frame:
  "fst (sweepLoop now files d) f = d f \<or> (fst (sweepLoop now files d) f = None \<and> reclaimed now d f)"
proof (induction files arbitrary: d)
  case Nil
  then show ?case by simp
next
  case (Cons fl files)
  show ?case
  proof (cases "reclaimed now d fl")
    case True
    then obtain n where n: "d fl = Some n" "now - mtimeMs n > MAX_FILE_AGE_MS" "removable n"
      by (auto simp: reclaimed_def split: option.splits)
    let ?d' = "d(fl := None)"
    have step: "sweepLoop now (fl # files) d = sweepLoop now files ?d'"
      using n by (simp add: stat_def unlink_def)
    show ?thesis
    proof (cases "f = fl")
      case True
      have "?d' f = None" using True by simp
      with Cons.IH[of ?d'] have "fst (sweepLoop now files ?d') f = None" by metis
      with True \<open>reclaimed now d fl\<close>
      have "fst (sweepLoop now files ?d') f = None \<and> reclaimed now d f" by simp
      then show ?thesis by (simp only: step simp_thms)
    next
      case False
      then have "?d' f = d f" "reclaimed now ?d' f = reclaimed now d f"
        by (simp_all add: reclaimed_def)
      with Cons.IH[of ?d']
      have "fst (sweepLoop now files ?d') f = d f
            \<or> (fst (sweepLoop now files ?d') f = None \<and> reclaimed now d f)" by metis
      then show ?thesis by (simp only: step)
    qed
  next
    case False
    have "sweepLoop now (fl # files) d = sweepLoop now files d
          \<or> fst (sweepLoop now (fl # files) d) = d"
    proof (cases "d fl")
      case None
      then show ?thesis by (simp add: stat_def)
    next
      case (Some n)
      with False show ?thesis
        by (simp add: stat_def unlink_def reclaimed_def)
    qed
    then show ?thesis
    proof
      assume "sweepLoop now (fl # files) d = sweepLoop now files d"
      with Cons.IH[of d] show ?thesis by simp
    next
      assume "fst (sweepLoop now (fl # files) d) = d"
      then show ?thesis by simp
    qed
  qed
qed

text \<open>
  What both versions of the sweep have in common. Whatever the directory holds and
  whatever fails, an entry that is not older than the threshold is there afterwards,
  unchanged. And when every entry can be removed by \<open>unlink\<close> and \<open>readdir\<close> lists the
  directory as it is, so that nothing fails, the directory after the sweep is exactly
  the one the specification describes: the old files are gone, the others are untouched.
\<close>

lemma sweep_when_nothing_fails:
  "(\<forall>f n. d f = Some n \<and> \<not> now - mtimeMs n > MAX_FILE_AGE_MS \<longrightarrow>
        fst (cleanupOldFiles now readdir d) f = Some n
      \<and> fst (cleanupOldFiles_p1 now readdir d) f = Some n)
   \<and> (set files = dom d \<and> distinct files \<and> (\<forall>f n. d f = Some n \<longrightarrow> removable n) \<longrightarrow>
        fst (cleanupOldFiles now (Inr files) d) = sweep_spec now d
      \<and> fst (cleanupOldFiles_p1 now (Inr files) d) = sweep_spec now d)"
proof (intro conjI allI impI)
  fix f n assume a: "d f = Some n \<and> \<not> now - mtimeMs n > MAX_FILE_AGE_MS"
  then have ns: "\<not> reclaimed now d f" by (simp add: reclaimed_def)
  show "fst (cleanupOldFiles now readdir d) f = Some n"
  proof (cases readdir)
    case (Inl e)
    with a show ?thesis by (simp add: cleanupOldFiles_def)
  next
    case (Inr files)
    have "fst (cleanupOldFiles now (Inr files) d) = fst (sweepLoop now files d)"
      by (simp add: cleanupOldFiles_def split: prod.splits option.splits)
    with sweepLoop_frame[of now files d f] ns a Inr show ?thesis by simp
  qed
  show "fst (cleanupOldFiles_p1 now readdir d) f = Some n"
  proof (cases readdir)
    case (Inl e)
    with a show ?thesis by (simp add: cleanupOldFiles_p1_def)
  next
    case (Inr files)
    with ns a show ?thesis by (simp add: cleanupOldFiles_p1_def sweepLoop_p1_result)
  qed
next
  assume h: "set files = dom d \<and> distinct files \<and> (\<forall>f n. d f = Some n \<longrightarrow> removable n)"
  then have "sweepLoop now files d = ((\<lambda>f. if f \<in> set files \<and> stale now d f then None else d f), None)"
    by (intro sweepLoop_no_failure) auto
  moreover have "(\<lambda>f. if f \<in> set files \<and> stale now d f then None else d f) = sweep_spec now d"
    using h by (auto simp: fun_eq_iff stale_def sweep_spec_def split: option.splits)
  ultimately show "fst (cleanupOldFiles now (Inr files) d) = sweep_spec now d"
    by (simp add: cleanupOldFiles_def)
  have "(\<lambda>f. if f \<in> set files \<and> reclaimed now d f then None else d f)
        = sweep_spec now d"
    using h by (auto simp: fun_eq_iff reclaimed_def sweep_spec_def split: option.splits)
  then show "fst (cleanupOldFiles_p1 now (Inr files) d) = sweep_spec now d"
    by (simp add: cleanupOldFiles_p1_def sweepLoop_p1_result)
qed

lemma sweep_example:
  "fst (cleanupOldFiles 2000000 (Inr [''new.mp3'', ''old.mp3'']) example_dir)
     = sweep_spec 2000000 example_dir
   \<and> fst (cleanupOldFiles_p1 2000000 (Inr [''new.mp3'', ''old.mp3'']) example_dir)
     = sweep_spec 2000000 example_dir
   \<and> sweep_spec 2000000 example_dir ''old.mp3'' = None
   \<and> sweep_spec 2000000 example_dir ''new.mp3''
     = Some \<lparr> mtimeMs = 1900000, removable = True \<rparr>"
proof -
  have hyps: "set [''new.mp3'', ''old.mp3''] = dom example_dir
      \<and> distinct [''new.mp3'', ''old.mp3'']
      \<and> (\<forall>f n. example_dir f = Some n \<longrightarrow> removable n)"
    by (auto simp: example_dir_def split: if_splits)
  from sweep_when_nothing_fails
         [where d = example_dir and now = 2000000 and files = "[''new.mp3'', ''old.mp3'']"]
       hyps
  show ?thesis
    by (simp add: sweep_spec_def example_dir_def MAX_FILE_AGE_MS_def)
qed

text \<open>
  The sweep of part_001 goes on after a failure: whatever the listing and whatever fails
  on other entries, an old entry that \<open>unlink\<close> can remove is gone afterwards.
\<close>

lemma sweep_p1_continues:
  "f \<in> set files \<Longrightarrow> d f = Some n \<Longrightarrow> now - mtimeMs n > MAX_FILE_AGE_MS \<Longrightarrow> removable n \<Longrightarrow>
     fst (cleanupOldFiles_p1 now (Inr files) d) f = None"
  by (simp add: cleanupOldFiles_p1_def sweepLoop_p1_result reclaimed_def)

text \<open>
  Claim C2. For every file in the temp directory when a sweep runs, the sweep deletes
  the file if and only if its modification time is older than the 30-minute threshold.
  The sweep of server.js, which is also the sweep of the fourth server, leaves old
  files in place. Here the directory holds a subdirectory and a file, both older than
  the threshold, and \<open>readdir\<close> lists them in that order: \<open>unlink\<close> of the
  subdirectory throws, the exception leaves the loop, and the old file is still there
  after the sweep; the directory is as it was. On the same input the sweep of part_001
  deletes the file.
\<close>

theorem sweep_leaves_old_file:
  "cleanupOldFiles 2000000 (Inr [''sub'', ''old.mp3'']) example_dir_sub
     = (example_dir_sub, [''Cleanup error: EPERM: operation not permitted''])
   \<and> example_dir_sub ''old.mp3'' = Some \<lparr> mtimeMs = 0, removable = True \<rparr>
   \<and> 2000000 - mtimeMs \<lparr> mtimeMs = 0, removable = True \<rparr> > MAX_FILE_AGE_MS
   \<and> fst (cleanupOldFiles_p1 2000000 (Inr [''sub'', ''old.mp3'']) example_dir_sub) ''old.mp3''
       = None"
  by (simp add: cleanupOldFiles_def cleanupOldFiles_p1_def stat_def unlink_def
                MAX_FILE_AGE_MS_def example_dir_sub_def)

theorem sweep_leaves_old_file_witness:
  "fst (cleanupOldFiles 2000000 (Inr [''sub'', ''old.mp3'']) example_dir_sub) ''old.mp3''
     = Some \<lparr> mtimeMs = 0, removable = True \<rparr>"
  using sweep_leaves_old_file by (simp add: example_dir_sub_def)

text \<open>
  Claim C3. A failure to stat or delete one entry does not halt the sweep: every
  remaining entry that is older than the threshold is still deleted. The sweep of
  server.js halts. Here the listing names a file that is gone by the time \<open>stat\<close> looks
  at it (its request finished and deleted it); the exception leaves the loop, and the
  old file listed after it stays. On the same input the sweep of part_001 deletes it.
\<close>

theorem sweep_halts_on_failure:
  "cleanupOldFiles 2000000 (Inr [''gone.mp3'', ''old.mp3''])
       [''old.mp3'' \<mapsto> \<lparr> mtimeMs = 0, removable = True \<rparr>]
     = ([''old.mp3'' \<mapsto> \<lparr> mtimeMs = 0, removable = True \<rparr>],
        [''Cleanup error: ENOENT: no such file or directory''])
   \<and> fst (cleanupOldFiles_p1 2000000 (Inr [''gone.mp3'', ''old.mp3''])
            [''old.mp3'' \<mapsto> \<lparr> mtimeMs = 0, removable = True \<rparr>]) ''old.mp3'' = None"
  by (simp add: cleanupOldFiles_def cleanupOldFiles_p1_def stat_def unlink_def
                MAX_FILE_AGE_MS_def)

theorem sweep_halts_on_failure_witness:
  "fst (cleanupOldFiles 2000000 (Inr [''gone.mp3'', ''old.mp3''])
          [''old.mp3'' \<mapsto> \<lparr> mtimeMs = 0, removable = True \<rparr>]) ''old.mp3''
     = Some \<lparr> mtimeMs = 0, removable = True \<rparr>"
  using sweep_halts_on_failure by simp

section \<open>Properties of the session registry\<close>





lemma map_set_subset: "set (map_set k v m) \<subseteq> insert (k, v) (set m)"
  by (induction k v m rule: map_set.induct) auto








section \<open>Properties of the downloader\<close>

text \<open>
  A chain of redirects that ends in a 200 response is followed to its end by the
  downloaders of server.js and of part_001, however long it is: one request per URL of
  the chain, and the download succeeds.
\<close>

lemma makeRequest_chain:
  "redirectChain L net u vs \<Longrightarrow> (first \<longrightarrow> openErr = None) \<Longrightarrow>
     makeRequest L openErr net dest first u tr = Some (tr @ map Get (u # vs), Resolved)"
proof (induction vs arbitrary: u tr first)
  case Nil
  then show ?case by (subst makeRequest.simps) auto
next
  case (Cons v vs)
  then have "makeRequest L openErr net dest first u tr
               = makeRequest L openErr net dest False v (tr @ [Get u])"
    by (subst makeRequest.simps) (auto simp: orElse_def)
  also have "\<dots> = Some ((tr @ [Get u]) @ map Get (v # vs), Resolved)"
    using Cons.prems by (intro Cons.IH) simp_all
  finally show ?case by simp
qed

lemma downloadFile_p1_chain:
  "redirectChain L net u vs \<Longrightarrow>
     downloadFile_p1 L net (Some u) dest tr
       = Some (tr @ map Get (u # vs) @ [OpenWrite dest], Resolved)"
proof (induction vs arbitrary: u tr)
  case Nil
  then show ?case by (subst downloadFile_p1.simps) auto
next
  case (Cons v vs)
  then have "downloadFile_p1 L net (Some u) dest tr
               = downloadFile_p1 L net (Some v) dest (tr @ [Get u])"
    by (subst downloadFile_p1.simps) auto
  also have "\<dots> = Some ((tr @ [Get u]) @ map Get (v # vs) @ [OpenWrite dest], Resolved)"
    using Cons.prems by (intro Cons.IH) simp
  finally show ?case by simp
qed

lemma redirect_chain_followed:
  "redirectChain L net u vs \<Longrightarrow>
     downloadFile L None net u dest = Some (OpenWrite dest # map Get (u # vs), Resolved)
     \<and> downloadFile_p1 L net (Some u) dest []
         = Some (map Get (u # vs) @ [OpenWrite dest], Resolved)"
  using makeRequest_chain[of L net u vs True None dest "[OpenWrite dest]"]
        downloadFile_p1_chain[of L net u vs dest "[]"]
  by (simp add: downloadFile_def)

text \<open>
  The downloader of the fourth server follows such a chain to its end when it has at
  most 5 redirects, and on a longer one it rejects after the request that the fifth
  redirect leads to. Whatever the network answers, it makes at most 6 requests.
\<close>

lemma makeRequest_mp36_chain:
  "redirectChain L net u vs \<Longrightarrow> (first \<longrightarrow> openErr = None) \<Longrightarrow> redirectCount + length vs \<le> 5 \<Longrightarrow>
     makeRequest_mp36 L openErr net dest first u redirectCount tr
       = (tr @ map Get (u # vs), Resolved)"
proof (induction vs arbitrary: u tr first redirectCount)
  case Nil
  then show ?case by (subst makeRequest_mp36.simps) auto
next
  case (Cons v vs)
  then have "makeRequest_mp36 L openErr net dest first u redirectCount tr
               = makeRequest_mp36 L openErr net dest False v (redirectCount + 1) (tr @ [Get u])"
    by (subst makeRequest_mp36.simps) (auto simp: orElse_def)
  also have "\<dots> = ((tr @ [Get u]) @ map Get (v # vs), Resolved)"
    using Cons.prems by (intro Cons.IH) simp_all
  finally show ?case by simp
qed

lemma makeRequest_mp36_too_many:
  "redirectChain L net u vs \<Longrightarrow> (first \<longrightarrow> openErr = None) \<Longrightarrow> redirectCount \<le> 6 \<Longrightarrow>
   5 < redirectCount + length vs \<Longrightarrow>
     makeRequest_mp36 L openErr net dest first u redirectCount tr
       = (tr @ map Get (take (6 - redirectCount) (u # vs)), Rejected ''Too many redirects'')"
proof (induction vs arbitrary: u tr first redirectCount)
  case Nil
  then have "redirectCount = 6" by simp
  then show ?case by (subst makeRequest_mp36.simps) simp
next
  case (Cons v vs)
  show ?case
  proof (cases "redirectCount > 5")
    case True
    with Cons.prems have "redirectCount = 6" by simp
    then show ?thesis by (subst makeRequest_mp36.simps) simp
  next
    case False
    with Cons.prems
    have "makeRequest_mp36 L openErr net dest first u redirectCount tr
            = makeRequest_mp36 L openErr net dest False v (redirectCount + 1) (tr @ [Get u])"
      by (subst makeRequest_mp36.simps) (auto simp: orElse_def)
    also have "\<dots> = ((tr @ [Get u]) @ map Get (take (6 - (redirectCount + 1)) (v # vs)),
                      Rejected ''Too many redirects'')"
      using Cons.prems False by (intro Cons.IH) simp_all
    also have "(tr @ [Get u]) @ map Get (take (6 - (redirectCount + 1)) (v # vs))
                 = tr @ map Get (take (6 - redirectCount) (u # v # vs))"
    proof -
      from False obtain k where k: "6 - redirectCount = Suc k" "6 - (redirectCount + 1) = k"
        by (cases "6 - redirectCount") auto
      show ?thesis by (simp only: k take_Suc_Cons list.map append_assoc append_Cons append_Nil)
    qed
    finally show ?thesis .
  qed
qed

lemma makeRequest_mp36_requests:
  "length (filter isGet (fst (makeRequest_mp36 L openErr net dest first u redirectCount tr)))
     \<le> length (filter isGet tr) + (6 - redirectCount)"
proof (induction L openErr net dest first u redirectCount tr rule: makeRequest_mp36.induct)
  case (1 L openErr net destPath first downloadUrl redirectCount tr)
  show ?case
  proof (cases "redirectCount > 5")
    case True
    then show ?thesis by (subst makeRequest_mp36.simps) simp
  next
    case small: False
    show ?thesis
    proof (cases "getThrows L downloadUrl")
      case (Some msg)
      with small show ?thesis by (subst makeRequest_mp36.simps) simp
    next
      case None
      show ?thesis
      proof (cases "if first then openErr else None")
        case (Some e)
        with small None show ?thesis by (subst makeRequest_mp36.simps) auto
      next
        case opened: None
        show ?thesis
        proof (cases "net downloadUrl")
          case (NetError err)
          with small None opened show ?thesis by (subst makeRequest_mp36.simps) auto
        next
          case (Reply statusCode location wr)
          show ?thesis
          proof (cases "300 \<le> statusCode \<and> statusCode < 400 \<and> truthy location")
            case True
            from "1.IH"[OF small None opened Reply True]
            have "length (filter isGet (fst (makeRequest_mp36 L openErr net destPath False
                      (orElse location []) (redirectCount + 1) (tr @ [Get downloadUrl]))))
                    \<le> length (filter isGet tr) + (6 - redirectCount)"
              using small by simp
            moreover have "makeRequest_mp36 L openErr net destPath first downloadUrl redirectCount tr
                 = makeRequest_mp36 L openErr net destPath False (orElse location [])
                     (redirectCount + 1) (tr @ [Get downloadUrl])"
              using small None opened Reply True by (subst makeRequest_mp36.simps) simp
            ultimately show ?thesis by simp
          next
            case False
            with small None opened Reply show ?thesis
              by (subst makeRequest_mp36.simps) (auto split: option.splits)
          qed
        qed
      qed
    qed
  qed
qed

lemma downloadFile_mp36_requests:
  "length (filter isGet (fst (downloadFile_mp36 L openErr net url dest))) \<le> 6"
  using makeRequest_mp36_requests[of L openErr net dest True url 0 "[OpenWrite dest]"]
  by (simp add: downloadFile_mp36_def)

text \<open>
  Claim C4. The downloader follows at most 5 redirects, and a chain of more than 5
  makes the download fail with an error of its own instead of being followed without
  bound. The downloaders of server.js and of part_001 do not count. Here the download
  URL is redirected six times before a 200 response: both follow all six redirects,
  seven requests, and the download succeeds. The downloader of the fourth server, which
  counts, makes six requests and rejects with \<open>Too many redirects\<close>.
\<close>

theorem six_redirects_followed:
  "downloadFile lib_example None (netOf six_redirects) ''http://h/0'' ''t.mp3''
     = Some ([OpenWrite ''t.mp3'', Get ''http://h/0'', Get ''http://h/1'', Get ''http://h/2'',
              Get ''http://h/3'', Get ''http://h/4'', Get ''http://h/5'', Get ''http://h/6''],
             Resolved)
   \<and> downloadFile_p1 lib_example (netOf six_redirects) (Some ''http://h/0'') ''t.mp3'' []
     = Some ([Get ''http://h/0'', Get ''http://h/1'', Get ''http://h/2'', Get ''http://h/3'',
              Get ''http://h/4'', Get ''http://h/5'', Get ''http://h/6'', OpenWrite ''t.mp3''],
             Resolved)
   \<and> downloadFile_mp36 lib_example None (netOf six_redirects) ''http://h/0'' ''t.mp3''
     = ([OpenWrite ''t.mp3'', Get ''http://h/0'', Get ''http://h/1'', Get ''http://h/2'',
         Get ''http://h/3'', Get ''http://h/4'', Get ''http://h/5''],
        Rejected ''Too many redirects'')"
  by (simp add: downloadFile_def downloadFile_mp36_def makeRequest.simps
                makeRequest_mp36.simps downloadFile_p1.simps netOf_def six_redirects_def
                orElse_def getThrows_def lib_example_def protoOf_def startsWith_def Let_def)

theorem six_redirects_followed_witness:
  "map_option snd (downloadFile lib_example None (netOf six_redirects) ''http://h/0'' ''t.mp3'')
     = Some Resolved
   \<and> Get ''http://h/6''
       \<in> set (fst (the (downloadFile_p1 lib_example (netOf six_redirects) (Some ''http://h/0'')
                          ''t.mp3'' [])))
   \<and> snd (downloadFile_mp36 lib_example None (netOf six_redirects) ''http://h/0'' ''t.mp3'')
       = Rejected ''Too many redirects''"
  using six_redirects_followed by simp

text \<open>
  And on a URL that redirects to itself the downloaders of server.js and of part_001
  never settle the promise: the recursion has no end.
\<close>

lemma makeRequest_loop_aux:
  assumes "makeRequest L openErr net dest first x tr = Some y"
  shows "\<not> (getThrows L x = None \<and> (first \<longrightarrow> openErr = None)
            \<and> net x = Reply 302 (Some x) None \<and> x \<noteq> [])"
proof (rule makeRequest.raw_induct
    [where P = "\<lambda>L openErr net dest first x tr y.
                  \<not> (getThrows L x = None \<and> (first \<longrightarrow> openErr = None)
                     \<and> net x = Reply 302 (Some x) None \<and> x \<noteq> [])", OF _ assms])
  fix mr :: "lib \<Rightarrow> string option \<Rightarrow> (string \<Rightarrow> reply) \<Rightarrow> string \<Rightarrow> bool \<Rightarrow> string \<Rightarrow> event list
               \<Rightarrow> (event list \<times> settled) option"
  fix L openErr net dest first x tr y
  assume IH: "\<And>L openErr net dest first x tr y. mr L openErr net dest first x tr = Some y
                 \<Longrightarrow> \<not> (getThrows L x = None \<and> (first \<longrightarrow> openErr = None)
                        \<and> net x = Reply 302 (Some x) None \<and> x \<noteq> [])"
  assume step: "(case getThrows L x of
        Some msg \<Rightarrow> Some (tr, if first then Rejected msg else Crashed msg)
      | None \<Rightarrow>
          (case (if first then openErr else None) of
             Some e \<Rightarrow> Some (tr @ [Get x], Crashed e)
           | None \<Rightarrow>
               (case net x of
                  NetError err \<Rightarrow> Some (tr @ [Get x, Unlink dest], Rejected err)
                | Reply statusCode location wr \<Rightarrow>
                    if 300 \<le> statusCode \<and> statusCode < 400 \<and> truthy location then
                      mr L openErr net dest False (orElse location []) (tr @ [Get x])
                    else if statusCode \<noteq> 200 then
                      Some (tr @ [Get x],
                            Rejected (''Download failed with status ''
                                      @ toString 10 (int statusCode)))
                    else
                      (case wr of
                         None \<Rightarrow> Some (tr @ [Get x], Resolved)
                       | Some e \<Rightarrow> Some (tr @ [Get x], Crashed e))))) = Some y"
  show "\<not> (getThrows L x = None \<and> (first \<longrightarrow> openErr = None)
           \<and> net x = Reply 302 (Some x) None \<and> x \<noteq> [])"
  proof
    assume loop: "getThrows L x = None \<and> (first \<longrightarrow> openErr = None)
                  \<and> net x = Reply 302 (Some x) None \<and> x \<noteq> []"
    with step have "mr L openErr net dest False x (tr @ [Get x]) = Some y"
      by (auto simp: orElse_def split: if_splits)
    from IH[OF this] loop show False by simp
  qed
qed

lemma downloadFile_loop:
  "getThrows L u = None \<Longrightarrow> net u = Reply 302 (Some u) None \<Longrightarrow> u \<noteq> [] \<Longrightarrow>
     downloadFile L None net u dest = None"
  unfolding downloadFile_def using makeRequest_loop_aux[of L None net dest True u]
  by (cases "makeRequest L None net dest True u [OpenWrite dest]") auto

lemma downloadFile_p1_loop_aux:
  assumes "downloadFile_p1 L net x dest tr = Some y"
  shows "\<not> (\<exists>u. x = Some u \<and> getThrows L u = None \<and> net u = Reply 302 (Some u) None)"
proof (rule downloadFile_p1.raw_induct
    [where P = "\<lambda>L net x dest tr y.
                  \<not> (\<exists>u. x = Some u \<and> getThrows L u = None \<and> net u = Reply 302 (Some u) None)",
     OF _ assms])
  fix df :: "lib \<Rightarrow> (string \<Rightarrow> reply) \<Rightarrow> string option \<Rightarrow> string \<Rightarrow> event list
               \<Rightarrow> (event list \<times> settled) option"
  fix L net x dest tr y
  assume IH: "\<And>L net x dest tr y. df L net x dest tr = Some y
                 \<Longrightarrow> \<not> (\<exists>u. x = Some u \<and> getThrows L u = None
                             \<and> net u = Reply 302 (Some u) None)"
  assume step: "(case x of
        None \<Rightarrow> Some (tr, Rejected ''Cannot read properties of undefined'')
      | Some u \<Rightarrow>
          (case getThrows L u of
             Some msg \<Rightarrow> Some (tr, Rejected msg)
           | None \<Rightarrow>
               (case net u of
                  NetError err \<Rightarrow> Some (tr @ [Get u], Rejected err)
                | Reply statusCode location wr \<Rightarrow>
                    if statusCode = 301 \<or> statusCode = 302 then
                      df L net location dest (tr @ [Get u])
                    else if statusCode \<noteq> 200 then
                      Some (tr @ [Get u],
                            Rejected (''Failed to download: '' @ toString 10 (int statusCode)))
                    else
                      (case wr of
                         None \<Rightarrow> Some (tr @ [Get u, OpenWrite dest], Resolved)
                       | Some e \<Rightarrow>
                           Some (tr @ [Get u, OpenWrite dest, Unlink dest],
                                 Rejected e))))) = Some y"
  show "\<not> (\<exists>u. x = Some u \<and> getThrows L u = None \<and> net u = Reply 302 (Some u) None)"
  proof
    assume "\<exists>u. x = Some u \<and> getThrows L u = None \<and> net u = Reply 302 (Some u) None"
    then obtain u where loop: "x = Some u" "getThrows L u = None"
        "net u = Reply 302 (Some u) None" by blast
    with step have "df L net (Some u) dest (tr @ [Get u]) = Some y"
      by simp
    from IH[OF this] loop show False by simp
  qed
qed

lemma downloadFile_p1_loop:
  "getThrows L u = None \<Longrightarrow> net u = Reply 302 (Some u) None \<Longrightarrow>
     downloadFile_p1 L net (Some u) dest tr = None"
  using downloadFile_p1_loop_aux[of L net "Some u" dest tr]
  by (cases "downloadFile_p1 L net (Some u) dest tr") auto

text \<open>
  What \<open>get\<close> does not accept. A link of the resolver that is not an absolute URL: the
  call throws in the executor of the promise, which rejects, and server.js leaves the
  temp file it has just made. A relative \<open>Location\<close>: the call throws in the response
  callback, where nothing catches it in server.js, and the process dies; in part_001
  the call is in the executor of a promise of its own, which rejects. A write stream
  that does not open: server.js dies of the unhandled \<open>error\<close> event.
\<close>

lemma get_refuses:
  "downloadFile lib_example None (netOf []) ''cdn.example/a.mp3'' ''t.mp3''
     = Some ([OpenWrite ''t.mp3''], Rejected ''Invalid URL'')
   \<and> downloadFile lib_example None (netOf [(''http://a/'', Reply 302 (Some ''/b'') None)])
       ''http://a/'' ''t.mp3''
     = Some ([OpenWrite ''t.mp3'', Get ''http://a/''], Crashed ''Invalid URL'')
   \<and> downloadFile_p1 lib_example (netOf [(''http://a/'', Reply 302 (Some ''/b'') None)])
       (Some ''http://a/'') ''t.mp3'' []
     = Some ([Get ''http://a/''], Rejected ''Invalid URL'')
   \<and> downloadFile lib_example (Some ''ENOENT: no such file or directory'')
       (netOf [(''http://a/'', Reply 404 None None)]) ''http://a/'' ''t.mp3''
     = Some ([OpenWrite ''t.mp3'', Get ''http://a/''],
             Crashed ''ENOENT: no such file or directory'')"
  by (simp add: downloadFile_def makeRequest.simps downloadFile_p1.simps netOf_def
                orElse_def getThrows_def lib_example_def protoOf_def startsWith_def Let_def)

section \<open>Properties of the handlers\<close>

text \<open>The definitions that a run of a handler on a concrete request unfolds.\<close>

lemmas run_defs = lib_example_def hostOf_def protoOf_def stripIllegal_def netOf_def noResult_def
  getThrows_def
  example_world_def example_req_def example_ytWorld_def example_cobaltWorld_def
  convert_get_def convert_post_ytdlp_def convert_post_cobalt_def isValidYouTubeUrl_def
  getCobaltDownloadUrl_def sendFinish_def conversionFailed_p1_def
  isAuthenticated_def sessionIdOf_def orOpt_def orElse_def
  map_has_def extractVideoId_def markers_def startsWith_def isIdChar_def idPattern_def
  rapidApiRequest_def findDownloadUrl_def safeTitle_def substring0_def downloadFile_def
  makeRequest.simps downloadFile_p1.simps conversionFailed_def toString_def
  natToString.simps digitChar_def allowedDomains_def Let_def

text \<open>The downloaders add requests and file operations to the run, never a response.\<close>

lemma makeRequest_events:
  assumes "makeRequest L openErr net dest first u tr0 = Some y"
  shows "\<exists>more. fst y = tr0 @ more \<and> \<not> list_ex isJson more"
proof (rule makeRequest.raw_induct
    [where P = "\<lambda>L openErr net dest first u tr0 y.
                  \<exists>more. fst y = tr0 @ more \<and> \<not> list_ex isJson more",
     OF _ assms])
  fix mr :: "lib \<Rightarrow> string option \<Rightarrow> (string \<Rightarrow> reply) \<Rightarrow> string \<Rightarrow> bool \<Rightarrow> string \<Rightarrow> event list
               \<Rightarrow> (event list \<times> settled) option"
  fix L openErr net dest first x tr y
  assume IH: "\<And>L openErr net dest first x tr y. mr L openErr net dest first x tr = Some y
                 \<Longrightarrow> \<exists>more. fst y = tr @ more \<and> \<not> list_ex isJson more"
  assume step: "(case getThrows L x of
        Some msg \<Rightarrow> Some (tr, if first then Rejected msg else Crashed msg)
      | None \<Rightarrow>
          (case (if first then openErr else None) of
             Some e \<Rightarrow> Some (tr @ [Get x], Crashed e)
           | None \<Rightarrow>
               (case net x of
                  NetError err \<Rightarrow> Some (tr @ [Get x, Unlink dest], Rejected err)
                | Reply statusCode location wr \<Rightarrow>
                    if 300 \<le> statusCode \<and> statusCode < 400 \<and> truthy location then
                      mr L openErr net dest False (orElse location []) (tr @ [Get x])
                    else if statusCode \<noteq> 200 then
                      Some (tr @ [Get x],
                            Rejected (''Download failed with status ''
                                      @ toString 10 (int statusCode)))
                    else
                      (case wr of
                         None \<Rightarrow> Some (tr @ [Get x], Resolved)
                       | Some e \<Rightarrow> Some (tr @ [Get x], Crashed e))))) = Some y"
  show "\<exists>more. fst y = tr @ more \<and> \<not> list_ex isJson more"
  proof (cases "getThrows L x")
    case (Some msg)
    with step have "fst y = tr" by auto
    then show ?thesis by (intro exI[of _ "[]"]) simp
  next
    case requestable: None
    show ?thesis
    proof (cases "if first then openErr else None")
      case (Some e)
      with step requestable have "fst y = tr @ [Get x]" by auto
      then show ?thesis by (intro exI[of _ "[Get x]"]) simp
    next
      case opened: None
      show ?thesis
      proof (cases "net x")
        case (NetError err)
        with step requestable opened have "fst y = tr @ [Get x, Unlink dest]" by auto
        then show ?thesis by (intro exI[of _ "[Get x, Unlink dest]"]) simp
      next
        case (Reply statusCode location wr)
        show ?thesis
        proof (cases "300 \<le> statusCode \<and> statusCode < 400 \<and> truthy location")
          case True
          with step requestable opened Reply
          have "mr L openErr net dest False (orElse location []) (tr @ [Get x]) = Some y"
            by simp
          from IH[OF this] obtain more
            where "fst y = (tr @ [Get x]) @ more" "\<not> list_ex isJson more"
            by blast
          then show ?thesis by (intro exI[of _ "Get x # more"]) simp
        next
          case False
          with step requestable opened Reply have "fst y = tr @ [Get x]"
            by (auto split: if_splits option.splits)
          then show ?thesis by (intro exI[of _ "[Get x]"]) simp
        qed
      qed
    qed
  qed
qed

lemma downloadFile_p1_events:
  assumes "downloadFile_p1 L net u dest tr0 = Some y"
  shows "\<exists>more. fst y = tr0 @ more \<and> \<not> list_ex isJson more"
proof (rule downloadFile_p1.raw_induct
    [where P = "\<lambda>L net u dest tr0 y. \<exists>more. fst y = tr0 @ more \<and> \<not> list_ex isJson more",
     OF _ assms])
  fix df :: "lib \<Rightarrow> (string \<Rightarrow> reply) \<Rightarrow> string option \<Rightarrow> string \<Rightarrow> event list
               \<Rightarrow> (event list \<times> settled) option"
  fix L net x dest tr y
  assume IH: "\<And>L net x dest tr y. df L net x dest tr = Some y
                 \<Longrightarrow> \<exists>more. fst y = tr @ more \<and> \<not> list_ex isJson more"
  assume step: "(case x of
        None \<Rightarrow> Some (tr, Rejected ''Cannot read properties of undefined'')
      | Some u \<Rightarrow>
          (case getThrows L u of
             Some msg \<Rightarrow> Some (tr, Rejected msg)
           | None \<Rightarrow>
               (case net u of
                  NetError err \<Rightarrow> Some (tr @ [Get u], Rejected err)
                | Reply statusCode location wr \<Rightarrow>
                    if statusCode = 301 \<or> statusCode = 302 then
                      df L net location dest (tr @ [Get u])
                    else if statusCode \<noteq> 200 then
                      Some (tr @ [Get u],
                            Rejected (''Failed to download: '' @ toString 10 (int statusCode)))
                    else
                      (case wr of
                         None \<Rightarrow> Some (tr @ [Get u, OpenWrite dest], Resolved)
                       | Some e \<Rightarrow>
                           Some (tr @ [Get u, OpenWrite dest, Unlink dest],
                                 Rejected e))))) = Some y"
  show "\<exists>more. fst y = tr @ more \<and> \<not> list_ex isJson more"
  proof (cases x)
    case None
    with step have "fst y = tr" by auto
    then show ?thesis by (intro exI[of _ "[]"]) simp
  next
    case (Some u)
    show ?thesis
    proof (cases "getThrows L u")
      case refused: (Some msg)
      with step Some have "fst y = tr" by auto
      then show ?thesis by (intro exI[of _ "[]"]) simp
    next
      case requestable: None
      show ?thesis
      proof (cases "net u")
        case (NetError err)
        with step Some requestable have "fst y = tr @ [Get u]" by auto
        then show ?thesis by (intro exI[of _ "[Get u]"]) simp
      next
        case (Reply statusCode location wr)
        show ?thesis
        proof (cases "statusCode = 301 \<or> statusCode = 302")
          case True
          with step Some requestable Reply
          have "df L net location dest (tr @ [Get u]) = Some y" by auto
          from IH[OF this] obtain more
            where "fst y = (tr @ [Get u]) @ more" "\<not> list_ex isJson more"
            by blast
          then show ?thesis by (intro exI[of _ "Get u # more"]) simp
        next
          case False
          with step Some requestable Reply
          have "fst y = tr @ [Get u] \<or> fst y = tr @ [Get u, OpenWrite dest]
              \<or> fst y = tr @ [Get u, OpenWrite dest, Unlink dest]"
            by (auto split: if_splits option.splits)
          then show ?thesis by auto
        qed
      qed
    qed
  qed
qed

subsection \<open>Cleaning up after a failed conversion\<close>

text \<open>
  Both servers of part_001 delete before they answer: whenever the answer is the one of
  the \<open>catch\<close> block and the temp paths had been made, the deletions come right before
  it.
\<close>

lemma ytdlp_cleanup:
  assumes "Json 500 conversionFailedBody \<in> set (convert_post_ytdlp L w url)"
      and "y_mkdir w = None"
  shows "\<exists>pre. convert_post_ytdlp L w url
           = pre @ [Unlink (y_tempVideoPath w), Unlink (y_tempAudioPath w),
                    Json 500 conversionFailedBody]"
proof -
  have nf: "Json 500 conversionFailedBody \<notin> set (sendFinish temps e)" for temps e
    by (cases e) (auto simp: sendFinish_def conversionFailedBody_def)
  show ?thesis
    using assms nf
    by (auto simp: convert_post_ytdlp_def conversionFailed_p1_def conversionFailedBody_def Let_def
             split: option.splits sum.splits if_splits)
qed

lemma cobalt_cleanup:
  assumes run: "convert_post_cobalt L w url = Some tr"
      and failed: "Json 500 conversionFailedBody \<in> set tr"
      and alloc: "k_mkdir w = None" "getCobaltDownloadUrl (k_api w) (orElse url []) = Inr r"
  shows "\<exists>pre. tr = pre @ [Unlink (k_tempAudioPath w), Json 500 conversionFailedBody]"
proof -
  have nf: "Json 500 conversionFailedBody \<notin> set (sendFinish temps e)" for temps e
    by (cases e) (auto simp: sendFinish_def conversionFailedBody_def)
  have dl: "Json st b \<notin> set t"
    if "downloadFile_p1 L (k_net w) cu (k_tempAudioPath w) [] = Some (t, s)" for cu t s st b
  proof -
    from downloadFile_p1_events[OF that] have "\<not> list_ex isJson t" by auto
    then show ?thesis by (auto simp: list_ex_iff)
  qed
  show ?thesis
    using run failed alloc nf dl
    by (auto simp: convert_post_cobalt_def conversionFailed_p1_def conversionFailedBody_def Let_def
             split: option.splits sum.splits if_splits prod.splits settled.splits)
qed

text \<open>
  Claim C1. A conversion that fails after its temp path was allocated attempts to delete
  the partially written temp file before it answers with the error. server.js does
  not. Here the resolver returns a link, \<open>downloadFile\<close> creates the temp file and the
  download server answers 404: the promise is rejected, the \<open>catch\<close> block answers 500,
  and nothing deletes the file that \<open>createWriteStream\<close> made.
\<close>

theorem convert_get_leaves_temp_file:
  "convert_get lib_example [(''s1'', 0)]
     (example_world (noResult\<lparr> r_link := Some ''https://cdn.example/a.mp3'' \<rparr>)
                    (Reply 404 None None))
     (example_req ''https://youtu.be/dQw4w9WgXcQ'')
   = Some [ApiRequest ''/download?id=dQw4w9WgXcQ&format=mp3&quality=128kbps'',
           OpenWrite ''/app/temp/1700000000000-k3j2x.mp3'',
           Get ''https://cdn.example/a.mp3'',
           Json 500 [(''error'', JStr ''Conversion failed. Please try again.''),
                     (''details'', JStr ''Download failed with status 404'')]]"
  by (simp add: run_defs)

theorem convert_get_leaves_temp_file_witness:
  "OpenWrite ''/app/temp/1700000000000-k3j2x.mp3''
     \<in> set (the (convert_get lib_example [(''s1'', 0)]
                   (example_world (noResult\<lparr> r_link := Some ''https://cdn.example/a.mp3'' \<rparr>)
                                  (Reply 404 None None))
                   (example_req ''https://youtu.be/dQw4w9WgXcQ'')))
   \<and> Unlink ''/app/temp/1700000000000-k3j2x.mp3''
     \<notin> set (the (convert_get lib_example [(''s1'', 0)]
                   (example_world (noResult\<lparr> r_link := Some ''https://cdn.example/a.mp3'' \<rparr>)
                                  (Reply 404 None None))
                   (example_req ''https://youtu.be/dQw4w9WgXcQ'')))"
  using convert_get_leaves_temp_file by simp

subsection \<open>Validation of the URL\<close>

text \<open>
  The two servers of part_001 accept a URL exactly when \<open>validator.isURL\<close> accepts it
  (scheme http or https) and its host name is one of \<open>youtube.com\<close>,
  \<open>www.youtube.com\<close>, \<open>m.youtube.com\<close>, \<open>youtu.be\<close>; every other URL is answered with
  status 400 and nothing else happens, so no resolver is called. server.js answers an
  authenticated request with status 400, and nothing else happens, when
  \<open>validator.isURL\<close> refuses the URL or no video id can be extracted from it.
\<close>

lemma url_validation:
  "(isValidYouTubeUrl L u \<longleftrightarrow> isURL L u \<and> (\<exists>h \<in> set allowedDomains. hostname L u = Some h))
   \<and> (\<not> isValidYouTubeUrl L u \<longrightarrow>
        rejected400 (convert_post_ytdlp L yw (Some u))
        \<and> (\<exists>tr. convert_post_cobalt L kw (Some u) = Some tr \<and> rejected400 tr))
   \<and> (isAuthenticated (g_auth req) m \<and> g_url req = Some u
        \<and> (\<not> isURL L u \<or> extractVideoId u = None) \<longrightarrow>
        (\<exists>tr. convert_get L m w req = Some tr \<and> rejected400 tr))"
proof (intro conjI impI)
  show "isValidYouTubeUrl L u \<longleftrightarrow> isURL L u \<and> (\<exists>h \<in> set allowedDomains. hostname L u = Some h)"
    by (auto simp: isValidYouTubeUrl_def split: option.splits)
next
  assume "\<not> isValidYouTubeUrl L u"
  then show "rejected400 (convert_post_ytdlp L yw (Some u))"
    by (simp add: convert_post_ytdlp_def orElse_def)
next
  assume "\<not> isValidYouTubeUrl L u"
  then show "\<exists>tr. convert_post_cobalt L kw (Some u) = Some tr \<and> rejected400 tr"
    by (simp add: convert_post_cobalt_def orElse_def)
next
  assume "isAuthenticated (g_auth req) m \<and> g_url req = Some u
        \<and> (\<not> isURL L u \<or> extractVideoId u = None)"
  then show "\<exists>tr. convert_get L m w req = Some tr \<and> rejected400 tr"
    by (auto simp: convert_get_def orElse_def)
qed

text \<open>
  Claim C6. Every conversion request whose URL has a host name outside the list of
  video-platform host names is rejected with status 400 before any resolver call.
  server.js has no such list. Here the host is \<open>notyoutube.com\<close>, which is not on the
  list of part_001; the request goes to the resolver and the file is served.
\<close>

theorem convert_get_foreign_host:
  "hostname lib_example ''https://notyoutube.com/watch?v=dQw4w9WgXcQ'' = Some ''notyoutube.com''
   \<and> ''notyoutube.com'' \<notin> set allowedDomains
   \<and> \<not> isValidYouTubeUrl lib_example ''https://notyoutube.com/watch?v=dQw4w9WgXcQ''
   \<and> convert_get lib_example [(''s1'', 0)]
        (example_world (noResult\<lparr> r_link := Some ''https://cdn.example/a.mp3'' \<rparr>)
                       (Reply 200 None None))
        (example_req ''https://notyoutube.com/watch?v=dQw4w9WgXcQ'')
      = Some [ApiRequest ''/download?id=dQw4w9WgXcQ&format=mp3&quality=128kbps'',
              OpenWrite ''/app/temp/1700000000000-k3j2x.mp3'',
              Get ''https://cdn.example/a.mp3'',
              Stat ''/app/temp/1700000000000-k3j2x.mp3'',
              SendFile ''/app/temp/1700000000000-k3j2x.mp3'' ''audio.mp3'',
              Unlink ''/app/temp/1700000000000-k3j2x.mp3'']"
  by (simp add: run_defs)

theorem convert_get_foreign_host_witness:
  "ApiRequest ''/download?id=dQw4w9WgXcQ&format=mp3&quality=128kbps''
     \<in> set (the (convert_get lib_example [(''s1'', 0)]
                   (example_world (noResult\<lparr> r_link := Some ''https://cdn.example/a.mp3'' \<rparr>)
                                  (Reply 200 None None))
                   (example_req ''https://notyoutube.com/watch?v=dQw4w9WgXcQ'')))
   \<and> \<not> rejected400
         (the (convert_get lib_example [(''s1'', 0)]
                 (example_world (noResult\<lparr> r_link := Some ''https://cdn.example/a.mp3'' \<rparr>)
                                (Reply 200 None None))
                 (example_req ''https://notyoutube.com/watch?v=dQw4w9WgXcQ'')))"
  using convert_get_foreign_host by simp

subsection \<open>The served file name\<close>

text \<open>
  In server.js the stem of the served name is never empty, never longer than 100
  characters, and is either the sanitized title cut to 100 characters or \<open>audio\<close>. In
  the servers of part_001 the stem is the sanitized name cut to 100 characters.
\<close>

lemma safeTitle_server:
  "safeTitle L t \<noteq> [] \<and> length (safeTitle L t) \<le> 100
   \<and> (safeTitle L t = ''audio'' \<or> safeTitle L t = take 100 (sanitize L t))"
  by (simp add: safeTitle_def substring0_def Let_def)

lemma stem_capped: "length (substring0 100 (sanitize L t)) \<le> 100"
  by (simp add: substring0_def)

text \<open>
  Claim C7. The suggested name is stripped of path separators and control characters,
  cut to 100 characters, and replaced by a generic name when nothing is left of it. The
  servers of part_001 put the fallback inside the call of \<open>sanitize\<close>, so it covers a
  missing title only, not a title of which sanitizing leaves nothing. Here the title
  of the video is \<open>???\<close>: the yt-dlp server serves the file under the name \<open>.mp3\<close>,
  where server.js serves \<open>audio.mp3\<close>.
\<close>

theorem ytdlp_serves_empty_name:
  "convert_post_ytdlp lib_example (example_ytWorld (Some ''???''))
     (Some ''https://www.youtube.com/watch?v=dQw4w9WgXcQ'')
   = [Exec [''https://www.youtube.com/watch?v=dQw4w9WgXcQ'', ''-o'',
            ''/app/temp/1700000000000-k3j2x.webm'', ''-f'', ''bestaudio'', ''--no-playlist'',
            ''--restrict-filenames'', ''--no-warnings''],
      Exec [''https://www.youtube.com/watch?v=dQw4w9WgXcQ'', ''--dump-single-json'',
            ''--no-warnings''],
      Ffmpeg ''/app/temp/1700000000000-k3j2x.webm'' ''/app/temp/1700000000000-k3j2x.mp3'',
      SendFile ''/app/temp/1700000000000-k3j2x.mp3'' ''.mp3'',
      Unlink ''/app/temp/1700000000000-k3j2x.webm'',
      Unlink ''/app/temp/1700000000000-k3j2x.mp3'']
   \<and> safeTitle lib_example ''???'' @ ''.mp3'' = ''audio.mp3''"
  by (simp add: run_defs)

theorem ytdlp_serves_empty_name_witness:
  "SendFile ''/app/temp/1700000000000-k3j2x.mp3'' ''.mp3''
     \<in> set (convert_post_ytdlp lib_example (example_ytWorld (Some ''???''))
              (Some ''https://www.youtube.com/watch?v=dQw4w9WgXcQ''))"
  using ytdlp_serves_empty_name by simp

subsection \<open>What an error response carries\<close>

lemma no_json_plain: "\<not> list_ex isJson tr \<Longrightarrow> list_all plainError tr"
proof (induction tr)
  case Nil
  then show ?case by simp
next
  case (Cons ev tr)
  then show ?case by (cases ev) simp_all
qed

lemma plain_with_details: "plainError ev \<Longrightarrow> errorWithDetails ev"
proof (cases ev)
  case (Json status b)
  assume "plainError ev"
  with Json show ?thesis
    by (auto split: list.splits jv.splits prod.splits)
qed simp_all

lemma no_json_details: "\<not> list_ex isJson tr \<Longrightarrow> list_all errorWithDetails tr"
  using no_json_plain[of tr] plain_with_details by (auto simp: list_all_iff)

lemma info_plain: "list_all plainError (info m api req)"
  by (simp add: info_def shortMessages_def Let_def split: option.splits sum.splits)

lemma sendFinish_plain: "list_all plainError (sendFinish temps e)"
  by (cases e) (auto simp: sendFinish_def shortMessages_def list_all_iff)

lemma conversionFailed_p1_plain: "list_all plainError (conversionFailed_p1 temps)"
  by (auto simp: conversionFailed_p1_def shortMessages_def list_all_iff)

lemma ytdlp_plain: "list_all plainError (convert_post_ytdlp L w url)"
  using sendFinish_plain conversionFailed_p1_plain
  by (simp add: convert_post_ytdlp_def shortMessages_def Let_def
           split: option.splits sum.splits)

lemma cobalt_plain:
  assumes "convert_post_cobalt L w url = Some tr"
  shows "list_all plainError tr"
proof -
  have dl: "list_all plainError t"
    if "downloadFile_p1 L (k_net w) cu (k_tempAudioPath w) [] = Some (t, st)" for cu t st
    using downloadFile_p1_events[OF that] no_json_plain by auto
  show ?thesis
    using assms sendFinish_plain conversionFailed_p1_plain dl
    by (auto simp: convert_post_cobalt_def shortMessages_def Let_def
           split: option.splits sum.splits prod.splits settled.splits if_splits)
qed

lemma convert_get_details:
  assumes "convert_get L m w req = Some tr"
  shows "list_all errorWithDetails tr"
proof -
  have dl: "list_all errorWithDetails t"
    if "downloadFile L (w_open w) (w_net w) u (w_tempPath w) = Some (t, st)" for u t st
  proof -
    from that makeRequest_events[of L "w_open w" "w_net w" "w_tempPath w" True u
                                    "[OpenWrite (w_tempPath w)]" "(t, st)"]
    obtain more where "t = OpenWrite (w_tempPath w) # more" "\<not> list_ex isJson more"
      by (auto simp: downloadFile_def)
    then show ?thesis using no_json_details[of more] by simp
  qed
  show ?thesis
    using assms dl
    by (auto simp: convert_get_def conversionFailed_def shortMessages_def Let_def
           split: option.splits sum.splits prod.splits settled.splits if_splits streamEnd.splits)
qed

text \<open>
  Every error response of the information, authentication and conversion handlers
  carries one of the fixed short messages in its \<open>error\<close> field. In the two servers of
  part_001, in \<open>/api/info\<close> and in \<open>/api/auth\<close> that is the whole body; the conversion
  handler of server.js may add one more field, \<open>details\<close>.
\<close>

lemma error_bodies:
  "list_all plainError (info m api req)
   \<and> (case fst (auth env clock rnd password m) of (status, b) \<Rightarrow> plainError (Json status b))
   \<and> list_all plainError (convert_post_ytdlp L yw url)
   \<and> (\<forall>tr. convert_post_cobalt L kw url = Some tr \<longrightarrow> list_all plainError tr)
   \<and> (\<forall>tr. convert_get L m w req = Some tr \<longrightarrow> list_all errorWithDetails tr)"
proof (intro conjI allI impI)
  show "case fst (auth env clock rnd password m) of (status, b) \<Rightarrow> plainError (Json status b)"
    by (simp add: auth_def Let_def shortMessages_def)
qed (simp_all add: info_plain ytdlp_plain cobalt_plain convert_get_details)

text \<open>
  Claim C8. An error response carries a short message only; raw upstream error bodies
  and exception messages never appear in any field of it. The conversion handler of
  server.js sends both. In the first run the resolver answers with an \<open>error\<close> text and
  no link: the text goes out to the client, word for word, in \<open>details\<close>. In the second
  the request to the resolver fails: the message of the exception goes out in
  \<open>details\<close>.
\<close>

theorem convert_get_echoes_upstream:
  "convert_get lib_example [(''s1'', 0)]
     (example_world (noResult\<lparr> r_error := Some
         ''You have exceeded the MONTHLY quota for Requests on your current plan, BASIC'' \<rparr>)
                    (Reply 200 None None))
     (example_req ''https://youtu.be/dQw4w9WgXcQ'')
   = Some [ApiRequest ''/download?id=dQw4w9WgXcQ&format=mp3&quality=128kbps'',
           Json 400 [(''error'', JStr
              ''Could not get download link. The video might be restricted or unavailable.''),
             (''details'', JStr
              ''You have exceeded the MONTHLY quota for Requests on your current plan, BASIC'')]]
   \<and> convert_get lib_example [(''s1'', 0)]
     ((example_world noResult (Reply 200 None None))
        \<lparr> w_api := (\<lambda>path. ApiNetError
            ''getaddrinfo ENOTFOUND youtube-mp3-audio-video-downloader.p.rapidapi.com'') \<rparr>)
     (example_req ''https://youtu.be/dQw4w9WgXcQ'')
   = Some [ApiRequest ''/download?id=dQw4w9WgXcQ&format=mp3&quality=128kbps'',
           Json 500 [(''error'', JStr ''Conversion failed. Please try again.''),
             (''details'', JStr
              ''getaddrinfo ENOTFOUND youtube-mp3-audio-video-downloader.p.rapidapi.com'')]]"
  by (simp add: run_defs)

theorem convert_get_echoes_upstream_witness:
  "\<not> list_all plainError
       (the (convert_get lib_example [(''s1'', 0)]
               (example_world (noResult\<lparr> r_error := Some
                   ''You have exceeded the MONTHLY quota for Requests on your current plan, BASIC'' \<rparr>)
                              (Reply 200 None None))
               (example_req ''https://youtu.be/dQw4w9WgXcQ'')))"
  using convert_get_echoes_upstream by simp

end
